theory Spec2Isabelle
  imports Complex_Main "HOL-Library.Char_ord" "HOL-Library.List_Lexorder"
begin

section \<open>Data model (types.ts)\<close>

text \<open>
  Identifiers and month identifiers are JavaScript strings. A percentage is a JavaScript
  number; every value the edit engine writes is an integer (100, 50, or the result of
  \<open>parseInt\<close>), so percentages are modelled as unbounded integers (exact below \<open>2^53\<close>;
  the rounding of larger doubles is not modelled). The field \<open>id\<close> of each interface is
  renamed (\<open>alloc_id\<close>, \<open>member_id\<close>, \<open>role_id\<close>) because \<open>id\<close> is the identity
  function of HOL.
\<close>

record Role =
  role_id :: string
  title :: string
  defaultHourlyRate :: real

datatype MemberType = FULL_TIME | CONTRACTOR | CONSULTANT

record TeamMember =
  member_id :: string
  name :: string
  roleId :: string
  avatarUrl :: "string option"
  type :: MemberType

record Allocation =
  alloc_id :: string
  projectId :: string
  memberId :: string
  month :: string
  percentage :: int

section \<open>The allocation store (App.tsx)\<close>

text \<open>
  The store is the React state \<open>allocations\<close> of \<open>App\<close>; its three mutators are the
  functional updaters passed to \<open>setAllocations\<close>, each applied to the latest state
  \<open>prev\<close>.
\<close>

definition addAllocation :: "Allocation \<Rightarrow> Allocation list \<Rightarrow> Allocation list" where
  "addAllocation alloc prev = prev @ [alloc]"

definition updateAllocation :: "Allocation \<Rightarrow> Allocation list \<Rightarrow> Allocation list" where
  "updateAllocation alloc prev = map (\<lambda>a. if alloc_id a = alloc_id alloc then alloc else a) prev"

definition deleteAllocation :: "string \<Rightarrow> Allocation list \<Rightarrow> Allocation list" where
  "deleteAllocation i prev = filter (\<lambda>a. alloc_id a \<noteq> i) prev"

text \<open>
  \<open>deleteMember\<close> of \<open>App\<close> updates the state \<open>members\<close> alone: the allocations of
  the member stay in the store.
\<close>

definition deleteMember :: "string \<Rightarrow> TeamMember list \<Rightarrow> TeamMember list" where
  "deleteMember i prev = filter (\<lambda>m. member_id m \<noteq> i) prev"

section \<open>The edit engine (ProjectList)\<close>

text \<open>
  \<open>dragState\<close> is the mutable ref of the component; \<open>paintedCells\<close> is its JavaScript
  \<open>Set\<close> of cell keys.
\<close>

record DragState =
  active :: bool
  drag_projectId :: string
  drag_memberId :: string
  startMonth :: string
  startValue :: int
  paintValue :: int
  hasMoved :: bool
  paintedCells :: "string set"

text \<open>
  The world threaded through the event handlers: the store, the component's gesture and
  editor state, and the source of \<open>crypto.randomUUID()\<close>. The generator is modelled as a
  fixed sequence \<open>uuids\<close> of which \<open>issued\<close> elements have been handed out; that the
  sequence never repeats is a hypothesis of the theorems that need it (\<open>inj (uuids w)\<close>),
  not a property of the model.
\<close>

record World =
  allocations :: "Allocation list"
  dragState :: DragState
  addedMembers :: "string \<Rightarrow> string list"
  editingCell :: "(string \<times> string \<times> string) option"
  editValue :: string
  uuids :: "nat \<Rightarrow> string"
  issued :: nat

definition randomUUID :: "World \<Rightarrow> string \<times> World" where
  "randomUUID w = (uuids w (issued w), w\<lparr>issued := Suc (issued w)\<rparr>)"

definition sameCell :: "string \<Rightarrow> string \<Rightarrow> string \<Rightarrow> Allocation \<Rightarrow> bool" where
  "sameCell projId memId mon a \<longleftrightarrow> projectId a = projId \<and> memberId a = memId \<and> month a = mon"

text \<open>
  \<open>updateAllocationValue\<close> reads the \<open>allocations\<close> prop captured by the render in which
  the handler was created (\<open>snap\<close>), while its three callbacks update the latest state of
  the store: the two are separate arguments, so that two calls inside one handler read
  the same snapshot, as in the source.
\<close>

definition updateAllocationValue ::
  "Allocation list \<Rightarrow> string \<Rightarrow> string \<Rightarrow> string \<Rightarrow> int \<Rightarrow> World \<Rightarrow> World" where
  "updateAllocationValue snap projId memId mon newValue w =
     (let existingAllocation = find (sameCell projId memId mon) snap in
      if newValue > 0 then
        (case existingAllocation of
           Some e \<Rightarrow>
             if percentage e \<noteq> newValue
             then w\<lparr>allocations := updateAllocation (e\<lparr>percentage := newValue\<rparr>) (allocations w)\<rparr>
             else w
         | None \<Rightarrow>
             (let (u, w') = randomUUID w in
              w'\<lparr>allocations :=
                   addAllocation \<lparr>alloc_id = u, projectId = projId, memberId = memId,
                                  month = mon, percentage = newValue\<rparr> (allocations w')\<rparr>))
      else
        (case existingAllocation of
           Some e \<Rightarrow> w\<lparr>allocations := deleteAllocation (alloc_id e) (allocations w)\<rparr>
         | None \<Rightarrow> w))"

text \<open>The template literal \<open>`${projectId}-${memberId}-${month}`\<close>.\<close>

definition cellKey :: "string \<Rightarrow> string \<Rightarrow> string \<Rightarrow> string" where
  "cellKey projId memId mon = projId @ ''-'' @ memId @ ''-'' @ mon"

definition handleCellMouseDown :: "string \<Rightarrow> string \<Rightarrow> string \<Rightarrow> int \<Rightarrow> World \<Rightarrow> World" where
  "handleCellMouseDown projId memId mon currentVal w =
     (let pv = (if currentVal = 0 then 100 else 0) in
      w\<lparr>dragState :=
          \<lparr>active = True, drag_projectId = projId, drag_memberId = memId, startMonth = mon,
           startValue = currentVal, paintValue = pv, hasMoved = False, paintedCells = {}\<rparr>\<rparr>)"

definition addPainted :: "string \<Rightarrow> World \<Rightarrow> World" where
  "addPainted k w = w\<lparr>dragState := (dragState w)\<lparr>paintedCells := insert k (paintedCells (dragState w))\<rparr>\<rparr>"

definition handleCellMouseEnter :: "string \<Rightarrow> string \<Rightarrow> string \<Rightarrow> World \<Rightarrow> World" where
  "handleCellMouseEnter projId memId mon w =
     (let snap = allocations w in
      if \<not> active (dragState w) then w
      else if drag_projectId (dragState w) \<noteq> projId \<or> drag_memberId (dragState w) \<noteq> memId then w
      else
        (let w1 =
           (if \<not> hasMoved (dragState w) \<and> mon \<noteq> startMonth (dragState w) then
              (let w' = w\<lparr>dragState := (dragState w)\<lparr>hasMoved := True\<rparr>\<rparr>;
                   startKey = cellKey projId memId (startMonth (dragState w')) in
               if startKey \<notin> paintedCells (dragState w') then
                 addPainted startKey
                   (updateAllocationValue snap projId memId (startMonth (dragState w'))
                      (paintValue (dragState w')) w')
               else w')
            else w) in
         if hasMoved (dragState w1) then
           (let currentKey = cellKey projId memId mon in
            if currentKey \<notin> paintedCells (dragState w1) then
              addPainted currentKey
                (updateAllocationValue snap projId memId mon (paintValue (dragState w1)) w1)
            else w1)
         else w1))"

definition endGesture :: "World \<Rightarrow> World" where
  "endGesture w = w\<lparr>dragState := (dragState w)\<lparr>active := False, paintedCells := {}\<rparr>\<rparr>"

definition handleCellMouseUp :: "string \<Rightarrow> string \<Rightarrow> string \<Rightarrow> int \<Rightarrow> World \<Rightarrow> World" where
  "handleCellMouseUp projId memId mon currentVal w =
     (if \<not> active (dragState w) then w
      else endGesture
        (if \<not> hasMoved (dragState w) then
           (let nextVal = (if currentVal = 0 then 100 else if currentVal = 100 then 50 else 0) in
            updateAllocationValue (allocations w) projId memId mon nextVal w)
         else w))"

definition handleGlobalMouseUp :: "World \<Rightarrow> World" where
  "handleGlobalMouseUp w = (if active (dragState w) then endGesture w else w)"

subsection \<open>Direct numeric entry\<close>

text \<open>
  \<open>Number.prototype.toString\<close> on an integer (decimal digits, a leading minus sign;
  the exponent notation of magnitudes from \<open>10^21\<close> on is not modelled).
\<close>

fun digitsOf :: "nat \<Rightarrow> string" where
  "digitsOf n = (if n < 10 then [char_of (48 + n)] else digitsOf (n div 10) @ [char_of (48 + n mod 10)])"

declare digitsOf.simps [simp del]

definition toString :: "int \<Rightarrow> string" where
  "toString i = (if i < 0 then CHR ''-'' # digitsOf (nat (- i)) else digitsOf (nat i))"

text \<open>
  \<open>parseInt(string)\<close> without a radix, after ECMAScript: leading white space is
  skipped, a sign is read, a prefix \<open>0x\<close> or \<open>0X\<close> selects radix 16, and the longest
  prefix of digits of the radix is the value; no digit at all gives \<open>NaN\<close>, which is
  \<open>None\<close> here. White space is the ASCII part of the ECMAScript class, and the value
  is the exact integer (no rounding to a double).
\<close>

definition isWhiteSpace :: "char \<Rightarrow> bool" where
  "isWhiteSpace c \<longleftrightarrow> (of_char c :: nat) \<in> {9, 10, 11, 12, 13, 32}"

definition digitValue :: "char \<Rightarrow> nat option" where
  "digitValue c =
     (let n = (of_char c :: nat) in
      if 48 \<le> n \<and> n \<le> 57 then Some (n - 48)
      else if 97 \<le> n \<and> n \<le> 102 then Some (n - 87)
      else if 65 \<le> n \<and> n \<le> 70 then Some (n - 55)
      else None)"

definition isRadixDigit :: "nat \<Rightarrow> char \<Rightarrow> bool" where
  "isRadixDigit R c = (case digitValue c of Some d \<Rightarrow> d < R | None \<Rightarrow> False)"

definition radixValue :: "nat \<Rightarrow> string \<Rightarrow> nat" where
  "radixValue R Z = foldl (\<lambda>acc c. acc * R + the (digitValue c)) 0 Z"

definition parseInt :: "string \<Rightarrow> int option" where
  "parseInt str =
     (let S = dropWhile isWhiteSpace str;
          sign = (if S \<noteq> [] \<and> hd S = CHR ''-'' then - 1 else (1::int));
          S1 = (if S \<noteq> [] \<and> (hd S = CHR ''+'' \<or> hd S = CHR ''-'') then tl S else S);
          hex = (take 2 S1 = ''0x'' \<or> take 2 S1 = ''0X'');
          R = (if hex then 16 else 10);
          S2 = (if hex then drop 2 S1 else S1);
          Z = takeWhile (isRadixDigit R) S2
      in if Z = [] then None else Some (sign * int (radixValue R Z)))"

definition startEditing :: "string \<Rightarrow> string \<Rightarrow> string \<Rightarrow> int \<Rightarrow> World \<Rightarrow> World" where
  "startEditing projId memId mon currentVal w =
     w\<lparr>editingCell := Some (projId, memId, mon),
       editValue := (if currentVal > 0 then toString currentVal else []),
       dragState := (dragState w)\<lparr>active := False\<rparr>\<rparr>"

definition saveEditing :: "World \<Rightarrow> World" where
  "saveEditing w =
     (case editingCell w of
        None \<Rightarrow> w
      | Some (projId, memId, mon) \<Rightarrow>
          (let newValue = parseInt (editValue w);
               w1 = (case newValue of
                       Some v \<Rightarrow> updateAllocationValue (allocations w) projId memId mon v w
                     | None \<Rightarrow> w)
           in w1\<lparr>editingCell := None, editValue := []\<rparr>))"

subsection \<open>Adding and removing a member of a project\<close>

definition handleAddMemberToProject :: "string \<Rightarrow> string \<Rightarrow> World \<Rightarrow> World" where
  "handleAddMemberToProject projId memId w =
     w\<lparr>addedMembers := (addedMembers w)(projId := addedMembers w projId @ [memId])\<rparr>"

definition handleRemoveMemberFromProject :: "string \<Rightarrow> string \<Rightarrow> World \<Rightarrow> World" where
  "handleRemoveMemberFromProject projId memId w =
     (let w1 = w\<lparr>addedMembers :=
                   (addedMembers w)(projId := filter (\<lambda>i. i \<noteq> memId) (addedMembers w projId))\<rparr>;
          projectMemberAllocations =
            filter (\<lambda>a. projectId a = projId \<and> memberId a = memId) (allocations w)
      in foldl (\<lambda>w' a. w'\<lparr>allocations := deleteAllocation (alloc_id a) (allocations w')\<rparr>)
           w1 projectMemberAllocations)"

subsection \<open>The wiring of events to handlers\<close>

text \<open>
  The value a cell shows, \<open>alloc?.percentage || 0\<close> for the first record of the cell
  (\<open>||\<close> turns a missing record and a stored 0 into 0), is what the render passes to the
  handlers as \<open>currentVal\<close>.
\<close>

definition cellPercentage :: "Allocation list \<Rightarrow> string \<Rightarrow> string \<Rightarrow> string \<Rightarrow> int" where
  "cellPercentage allocs projId memId mon =
     (case find (sameCell projId memId mon) allocs of
        None \<Rightarrow> 0
      | Some alloc \<Rightarrow> (if percentage alloc = 0 then 0 else percentage alloc))"

text \<open>
  One user event on the grid. Each event runs its handler against the render of the
  current world: React re-renders between two events, so a handler's snapshot of
  \<open>allocations\<close> is the store at the time of the event. A pointer release on a cell
  bubbles to the window listener afterwards.
\<close>

datatype Event =
    MouseDown string string string
  | MouseEnter string string string
  | MouseUp string string string
  | GlobalMouseUp
  | DoubleClick string string string
  | Change string
  | Commit
  | AddMember string string
  | RemoveMember string string

fun fire :: "World \<Rightarrow> Event \<Rightarrow> World" where
  "fire w (MouseDown p m mon) = handleCellMouseDown p m mon (cellPercentage (allocations w) p m mon) w"
| "fire w (MouseEnter p m mon) = handleCellMouseEnter p m mon w"
| "fire w (MouseUp p m mon) =
     handleGlobalMouseUp (handleCellMouseUp p m mon (cellPercentage (allocations w) p m mon) w)"
| "fire w GlobalMouseUp = handleGlobalMouseUp w"
| "fire w (DoubleClick p m mon) = startEditing p m mon (cellPercentage (allocations w) p m mon) w"
| "fire w (Change v) = w\<lparr>editValue := v\<rparr>"
| "fire w Commit = saveEditing w"
| "fire w (AddMember p m) = handleAddMemberToProject p m w"
| "fire w (RemoveMember p m) = handleRemoveMemberFromProject p m w"

definition run :: "World \<Rightarrow> Event list \<Rightarrow> World" where
  "run w evs = foldl fire w evs"

section \<open>Time grid (utils)\<close>

subsection \<open>JavaScript numbers\<close>

text \<open>
  \<open>getBusinessDaysInMonth\<close> takes two JavaScript numbers, which
  \<open>getBusinessHoursInMonth\<close> obtains with \<open>Number\<close> from the parts of the month
  identifier. A number is \<open>NaN\<close>, an infinity, or a finite double, given by the rational
  it denotes; the sign of zero is not kept (nothing in \<open>utils\<close> observes it).
\<close>

datatype JSNumber = NaN | Fin rat | PosInfinity | NegInfinity

text \<open>
  The double nearest to a positive rational \<open>num / den\<close>, ties to the even significand,
  after IEEE 754 binary64: 53 bits of significand, least exponent \<open>-1074\<close>, and
  overflow from \<open>2^1024\<close> on (\<open>None\<close>). \<open>bitLength\<close> is the number of binary digits.
\<close>

function bitLength :: "int \<Rightarrow> int" where
  "bitLength n = (if n \<le> 0 then 0 else 1 + bitLength (n div 2))"
  by pat_completeness auto

termination bitLength
  by (relation "measure nat") simp_all

declare bitLength.simps [simp del]

definition roundRatio :: "int \<Rightarrow> int \<Rightarrow> rat option" where
  "roundRatio num den =
     (let e0 = bitLength num - bitLength den;
          e = (if (if 0 \<le> e0 then 2 ^ nat e0 * den \<le> num else den \<le> 2 ^ nat (- e0) * num)
               then e0 else e0 - 1);
          p = max (e - 52) (- 1074);
          N = (if 0 \<le> p then num else 2 ^ nat (- p) * num);
          D = (if 0 \<le> p then 2 ^ nat p * den else den);
          f = N div D;
          r = N mod D;
          n = (if 2 * r < D then f else if D < 2 * r then f + 1
               else if even f then f else f + 1)
      in if 971 < p \<or> (p = 971 \<and> 2 ^ 53 \<le> n) then None
         else Some (if 0 \<le> p then of_int (n * 2 ^ nat p) else of_int n / 2 ^ nat (- p)))"

definition roundToDouble :: "rat \<Rightarrow> JSNumber" where
  "roundToDouble q =
     (if q = 0 then Fin 0
      else let (n, d) = quotient_of \<bar>q\<bar> in
           (case roundRatio n d of
              None \<Rightarrow> if 0 < q then PosInfinity else NegInfinity
            | Some v \<Rightarrow> Fin (if 0 < q then v else - v)))"

text \<open>
  \<open>===\<close> on two numbers, \<open>-\<close>, and the truncation \<open>ToIntegerOrInfinity\<close> where it is
  finite.
\<close>

definition strictEquals :: "JSNumber \<Rightarrow> JSNumber \<Rightarrow> bool" where
  "strictEquals a b \<longleftrightarrow> a \<noteq> NaN \<and> b \<noteq> NaN \<and> a = b"

fun subtract :: "JSNumber \<Rightarrow> JSNumber \<Rightarrow> JSNumber" where
  "subtract (Fin a) (Fin b) = roundToDouble (a - b)"
| "subtract NaN b = NaN"
| "subtract a NaN = NaN"
| "subtract PosInfinity PosInfinity = NaN"
| "subtract NegInfinity NegInfinity = NaN"
| "subtract PosInfinity b = PosInfinity"
| "subtract NegInfinity b = NegInfinity"
| "subtract (Fin a) PosInfinity = NegInfinity"
| "subtract (Fin a) NegInfinity = PosInfinity"

definition truncateValue :: "rat \<Rightarrow> int" where
  "truncateValue q = (if 0 \<le> q then \<lfloor>q\<rfloor> else \<lceil>q\<rceil>)"

definition finiteInteger :: "JSNumber \<Rightarrow> int option" where
  "finiteInteger x = (case x of Fin q \<Rightarrow> Some (truncateValue q) | _ \<Rightarrow> None)"

subsection \<open>Day numbers and the calendar\<close>

text \<open>
  The calendar of ECMAScript time values (milliseconds from 1 January 1970 UTC in the
  proleptic Gregorian calendar): \<open>Day\<close>, \<open>TimeWithinDay\<close>, \<open>DayFromYear\<close> and the
  tables of \<open>MonthFromTime\<close> and \<open>DateFromTime\<close>, written on day numbers.
\<close>

definition msPerDay :: int where "msPerDay = 86400000"

definition Day :: "int \<Rightarrow> int" where "Day t = t div msPerDay"

definition TimeWithinDay :: "int \<Rightarrow> int" where "TimeWithinDay t = t mod msPerDay"

definition isLeapYear :: "int \<Rightarrow> bool" where
  "isLeapYear y \<longleftrightarrow> y mod 4 = 0 \<and> (y mod 100 \<noteq> 0 \<or> y mod 400 = 0)"

definition dayFromYear :: "int \<Rightarrow> int" where
  "dayFromYear y = 365 * (y - 1970) + (y - 1969) div 4 - (y - 1901) div 100 + (y - 1601) div 400"

text \<open>
  \<open>YearFromTime\<close>: the year that holds a day, that is the greatest \<open>y\<close> with
  \<open>dayFromYear y \<le> day\<close> (\<open>yearFromDay_bounds\<close> and \<open>yearFromDay_unique\<close> below),
  computed from an estimate that is off by at most one.
\<close>

definition yearFromDay :: "int \<Rightarrow> int" where
  "yearFromDay day =
     (let e = 1970 + (400 * day) div 146097 in
      if dayFromYear (e + 1) \<le> day then e + 1
      else if dayFromYear e \<le> day then e
      else e - 1)"

definition leapDays :: "int \<Rightarrow> int" where
  "leapDays y = (if isLeapYear y then 1 else 0)"

definition daysBeforeMonth :: "int \<Rightarrow> int \<Rightarrow> int" where
  "daysBeforeMonth y m =
     (if m = 0 then 0 else if m = 1 then 31
      else if m = 2 then 59 + leapDays y else if m = 3 then 90 + leapDays y
      else if m = 4 then 120 + leapDays y else if m = 5 then 151 + leapDays y
      else if m = 6 then 181 + leapDays y else if m = 7 then 212 + leapDays y
      else if m = 8 then 243 + leapDays y else if m = 9 then 273 + leapDays y
      else if m = 10 then 304 + leapDays y else 334 + leapDays y)"

definition daysInMonth :: "int \<Rightarrow> int \<Rightarrow> int" where
  "daysInMonth y m =
     (if m = 1 then 28 + leapDays y
      else if m = 3 \<or> m = 5 \<or> m = 8 \<or> m = 10 then 30
      else 31)"

text \<open>
  The day number of a calendar date (month from 0), and the month and the day of the
  month of a day number.
\<close>

definition dayNumber :: "int \<Rightarrow> int \<Rightarrow> int \<Rightarrow> int" where
  "dayNumber y m d = dayFromYear y + daysBeforeMonth y m + d - 1"

definition monthFromDay :: "int \<Rightarrow> int" where
  "monthFromDay day =
     (let y = yearFromDay day; d = day - dayFromYear y; l = leapDays y in
      if d < 31 then 0 else if d < 59 + l then 1
      else if d < 90 + l then 2 else if d < 120 + l then 3
      else if d < 151 + l then 4 else if d < 181 + l then 5
      else if d < 212 + l then 6 else if d < 243 + l then 7
      else if d < 273 + l then 8 else if d < 304 + l then 9
      else if d < 334 + l then 10 else 11)"

definition dateFromDay :: "int \<Rightarrow> int" where
  "dateFromDay day =
     (let y = yearFromDay day; d = day - dayFromYear y; l = leapDays y; m = monthFromDay day in
      if m = 0 then d + 1 else if m = 1 then d - 30
      else if m = 2 then d - 58 - l else if m = 3 then d - 89 - l
      else if m = 4 then d - 119 - l else if m = 5 then d - 150 - l
      else if m = 6 then d - 180 - l else if m = 7 then d - 211 - l
      else if m = 8 then d - 242 - l else if m = 9 then d - 272 - l
      else if m = 10 then d - 303 - l else d - 333 - l)"

definition weekDay :: "int \<Rightarrow> int" where
  "weekDay day = (day + 4) mod 7"

subsection \<open>Facts of the calendar\<close>

text \<open>
  Day numbers and calendar dates are in bijection; the termination of the loop of
  \<open>getBusinessDaysInMonth\<close> rests on it.
\<close>

lemma div_facts:
  fixes x k :: int
  assumes "0 < k"
  shows "k * (x div k) \<le> x \<and> x < k * (x div k) + k"
  using mult_div_mod_eq[of k x] pos_mod_bound[OF assms, of x] pos_mod_sign[OF assms, of x]
  by linarith

lemma div_succ:
  fixes x k :: int
  assumes k: "0 < k"
  shows "(x + 1) div k = x div k + (if (x + 1) mod k = 0 then 1 else 0)"
proof (cases "x mod k = k - 1")
  case True
  have "x + 1 = k * (x div k + 1) + 0"
    using mult_div_mod_eq[of k x] True by (simp add: algebra_simps)
  from int_div_pos_eq[OF this] int_mod_pos_eq[OF this] k show ?thesis by simp
next
  case False
  then have lt: "x mod k + 1 < k" using pos_mod_bound[OF k, of x] by simp
  have nn: "0 \<le> x mod k + 1" using pos_mod_sign[OF k, of x] by simp
  have "x + 1 = k * (x div k) + (x mod k + 1)"
    using mult_div_mod_eq[of k x] by simp
  from int_div_pos_eq[OF this nn lt] int_mod_pos_eq[OF this nn lt] pos_mod_sign[OF k, of x]
  show ?thesis by simp
qed

lemma mod_shift:
  fixes y :: int
  shows "(y - 1968) mod 4 = y mod 4" "(y - 1900) mod 100 = y mod 100" "(y - 1600) mod 400 = y mod 400"
proof -
  have "y - 1968 = y + 4 * (- 492)" "y - 1900 = y + 100 * (- 19)" "y - 1600 = y + 400 * (- 4)"
    by simp_all
  then show "(y - 1968) mod 4 = y mod 4" "(y - 1900) mod 100 = y mod 100" "(y - 1600) mod 400 = y mod 400"
    by (simp_all only: mod_mult_self2)
qed

lemma dayFromYear_step: "dayFromYear (y + 1) = dayFromYear y + 365 + leapDays y"
proof -
  have a: "(y + 1 - 1969) div 4 = (y - 1969) div 4 + (if y mod 4 = 0 then 1 else 0)"
    using div_succ[of 4 "y - 1969"] mod_shift(1)[of y] by (simp add: algebra_simps)
  have b: "(y + 1 - 1901) div 100 = (y - 1901) div 100 + (if y mod 100 = 0 then 1 else 0)"
    using div_succ[of 100 "y - 1901"] mod_shift(2)[of y] by (simp add: algebra_simps)
  have c: "(y + 1 - 1601) div 400 = (y - 1601) div 400 + (if y mod 400 = 0 then 1 else 0)"
    using div_succ[of 400 "y - 1601"] mod_shift(3)[of y] by (simp add: algebra_simps)
  have d1: "y mod 100 = 0" if "y mod 400 = 0"
  proof -
    from that obtain q where "y = 400 * q" by (auto simp: mod_eq_0_iff_dvd)
    then have "y = 100 * (4 * q)" by simp
    then show ?thesis by (simp only: mod_mult_self1_is_0)
  qed
  have d2: "y mod 4 = 0" if "y mod 100 = 0"
  proof -
    from that obtain q where "y = 100 * q" by (auto simp: mod_eq_0_iff_dvd)
    then have "y = 4 * (25 * q)" by simp
    then show ?thesis by (simp only: mod_mult_self1_is_0)
  qed
  have l: "leapDays y = (if y mod 4 = 0 then 1 else 0) - (if y mod 100 = 0 then 1 else 0)
                        + (if y mod 400 = 0 then 1 else 0)"
  proof (cases "y mod 400 = 0")
    case True
    with d1 d2 show ?thesis by (simp add: leapDays_def isLeapYear_def)
  next
    case False
    note n400 = this
    show ?thesis
    proof (cases "y mod 100 = 0")
      case True
      with d2 n400 show ?thesis by (simp add: leapDays_def isLeapYear_def)
    next
      case False
      with n400 show ?thesis by (simp add: leapDays_def isLeapYear_def)
    qed
  qed
  have "dayFromYear (y + 1) = 365 * (y + 1 - 1970) + (y + 1 - 1969) div 4 - (y + 1 - 1901) div 100
          + (y + 1 - 1601) div 400"
    by (simp only: dayFromYear_def)
  also have "\<dots> = dayFromYear y + 365 + leapDays y"
    unfolding a b c l dayFromYear_def by (simp only: algebra_simps)
  finally show ?thesis .
qed

lemma leapDays_range: "0 \<le> leapDays y \<and> leapDays y \<le> 1"
  by (simp add: leapDays_def)

lemma dayFromYear_strict: "dayFromYear y < dayFromYear (y + 1)"
  using leapDays_range[of y] by (simp add: dayFromYear_step)

lemma dayFromYear_mono: "a \<le> b \<Longrightarrow> dayFromYear a \<le> dayFromYear b"
proof (induction "nat (b - a)" arbitrary: b)
  case 0
  then show ?case by simp
next
  case (Suc n)
  then have "n = nat ((b - 1) - a)" "a \<le> b - 1" by simp_all
  from Suc.hyps(1)[OF this] dayFromYear_strict[of "b - 1"] show ?case by simp
qed

lemma yearFromDay_bounds:
  "dayFromYear (yearFromDay day) \<le> day \<and> day < dayFromYear (yearFromDay day + 1)"
proof -
  define e where "e = 1970 + (400 * day) div 146097"
  have e: "146097 * (e - 1970) \<le> 400 * day" "400 * day < 146097 * (e - 1970) + 146097"
    using div_facts[of 146097 "400 * day"] by (simp_all add: e_def)
  have lo: "dayFromYear (e - 1) \<le> day"
    unfolding dayFromYear_def
    using e div_facts[of 4 "e - 1 - 1969"] div_facts[of 100 "e - 1 - 1901"] div_facts[of 400 "e - 1 - 1601"]
    by simp
  have hi: "day < dayFromYear (e + 2)"
    unfolding dayFromYear_def
    using e div_facts[of 4 "e + 2 - 1969"] div_facts[of 100 "e + 2 - 1901"] div_facts[of 400 "e + 2 - 1601"]
    by simp
  show ?thesis
    using lo hi unfolding yearFromDay_def e_def[symmetric] Let_def
    by (auto simp: algebra_simps)
qed

lemma yearFromDay_unique:
  assumes "dayFromYear y \<le> day" "day < dayFromYear (y + 1)"
  shows "yearFromDay day = y"
proof (rule ccontr)
  assume ne: "yearFromDay day \<noteq> y"
  note b = yearFromDay_bounds[of day]
  show False
  proof (cases "yearFromDay day < y")
    case True
    then have "dayFromYear (yearFromDay day + 1) \<le> dayFromYear y" by (intro dayFromYear_mono) simp
    with b assms show False by simp
  next
    case False
    with ne have "dayFromYear (y + 1) \<le> dayFromYear (yearFromDay day)" by (intro dayFromYear_mono) simp
    with b assms show False by simp
  qed
qed

lemma month_cases:
  fixes m :: int
  assumes "0 \<le> m" "m \<le> 11"
  shows "m = 0 \<or> m = 1 \<or> m = 2 \<or> m = 3 \<or> m = 4 \<or> m = 5 \<or> m = 6 \<or> m = 7 \<or> m = 8 \<or> m = 9
         \<or> m = 10 \<or> m = 11"
  using assms by arith

lemma dayNumber_in_year:
  assumes "0 \<le> m" "m \<le> 11" "1 \<le> d" "d \<le> daysInMonth y m"
  shows "dayFromYear y \<le> dayNumber y m d \<and> dayNumber y m d < dayFromYear (y + 1)"
  using month_cases[OF assms(1,2)] assms(3,4) leapDays_range[of y]
  by (auto simp: dayNumber_def daysBeforeMonth_def daysInMonth_def dayFromYear_step)

lemma civil_of_dayNumber:
  assumes "0 \<le> m" "m \<le> 11" "1 \<le> d" "d \<le> daysInMonth y m"
  shows "yearFromDay (dayNumber y m d) = y"
    and "monthFromDay (dayNumber y m d) = m"
    and "dateFromDay (dayNumber y m d) = d"
proof -
  show y: "yearFromDay (dayNumber y m d) = y"
    using dayNumber_in_year[OF assms] by (intro yearFromDay_unique) simp_all
  have diy: "dayNumber y m d - dayFromYear y = daysBeforeMonth y m + d - 1"
    by (simp add: dayNumber_def)
  show m: "monthFromDay (dayNumber y m d) = m"
    unfolding monthFromDay_def y diy Let_def
    using month_cases[OF assms(1,2)] assms(3,4) leapDays_range[of y]
    by (auto simp: daysBeforeMonth_def daysInMonth_def)
  show "dateFromDay (dayNumber y m d) = d"
    unfolding dateFromDay_def y m diy Let_def
    using month_cases[OF assms(1,2)]
    by (auto simp: daysBeforeMonth_def)
qed

lemma monthFromDay_range: "0 \<le> monthFromDay day \<and> monthFromDay day \<le> 11"
  by (simp add: monthFromDay_def Let_def)

lemma dayNumber_of_civil:
  "dayNumber (yearFromDay day) (monthFromDay day) (dateFromDay day) = day"
  "1 \<le> dateFromDay day" "dateFromDay day \<le> daysInMonth (yearFromDay day) (monthFromDay day)"
proof -
  define y where "y = yearFromDay day"
  define d where "d = day - dayFromYear y"
  have d: "0 \<le> d" "d < 365 + leapDays y"
    using yearFromDay_bounds[of day] by (simp_all add: d_def y_def dayFromYear_step)
  have day: "day = dayFromYear y + d" by (simp add: d_def)
  have m: "monthFromDay day =
     (if d < 31 then 0 else if d < 59 + leapDays y then 1
      else if d < 90 + leapDays y then 2 else if d < 120 + leapDays y then 3
      else if d < 151 + leapDays y then 4 else if d < 181 + leapDays y then 5
      else if d < 212 + leapDays y then 6 else if d < 243 + leapDays y then 7
      else if d < 273 + leapDays y then 8 else if d < 304 + leapDays y then 9
      else if d < 334 + leapDays y then 10 else 11)"
    by (simp add: monthFromDay_def Let_def y_def d_def)
  have dt: "dateFromDay day =
     (let m = monthFromDay day; l = leapDays y in
      if m = 0 then d + 1 else if m = 1 then d - 30
      else if m = 2 then d - 58 - l else if m = 3 then d - 89 - l
      else if m = 4 then d - 119 - l else if m = 5 then d - 150 - l
      else if m = 6 then d - 180 - l else if m = 7 then d - 211 - l
      else if m = 8 then d - 242 - l else if m = 9 then d - 272 - l
      else if m = 10 then d - 303 - l else d - 333 - l)"
    by (simp add: dateFromDay_def Let_def y_def d_def)
  consider "d < 31" | "31 \<le> d" "d < 59 + leapDays y" | "59 + leapDays y \<le> d" "d < 90 + leapDays y"
    | "90 + leapDays y \<le> d" "d < 120 + leapDays y" | "120 + leapDays y \<le> d" "d < 151 + leapDays y"
    | "151 + leapDays y \<le> d" "d < 181 + leapDays y" | "181 + leapDays y \<le> d" "d < 212 + leapDays y"
    | "212 + leapDays y \<le> d" "d < 243 + leapDays y" | "243 + leapDays y \<le> d" "d < 273 + leapDays y"
    | "273 + leapDays y \<le> d" "d < 304 + leapDays y" | "304 + leapDays y \<le> d" "d < 334 + leapDays y"
    | "334 + leapDays y \<le> d"
    by linarith
  then have "dayNumber y (monthFromDay day) (dateFromDay day) = dayFromYear y + d
     \<and> 1 \<le> dateFromDay day \<and> dateFromDay day \<le> daysInMonth y (monthFromDay day)"
    using d leapDays_range[of y]
    by cases (simp_all add: m dt dayNumber_def daysBeforeMonth_def daysInMonth_def Let_def)
  then have "dayNumber y (monthFromDay day) (dateFromDay day) = day
     \<and> 1 \<le> dateFromDay day \<and> dateFromDay day \<le> daysInMonth y (monthFromDay day)"
    by (simp add: d_def)
  then show "dayNumber (yearFromDay day) (monthFromDay day) (dateFromDay day) = day"
    "1 \<le> dateFromDay day" "dateFromDay day \<le> daysInMonth (yearFromDay day) (monthFromDay day)"
    by (simp_all add: y_def)
qed

lemma month_chain:
  assumes "0 \<le> m" "m \<le> 11"
  shows "dayNumber y m (daysInMonth y m + 1) =
         (if m < 11 then dayNumber y (m + 1) 1 else dayNumber (y + 1) 0 1)"
  using month_cases[OF assms]
  by (auto simp: dayNumber_def daysBeforeMonth_def daysInMonth_def dayFromYear_step)

lemma daysInMonth_bounds: "28 \<le> daysInMonth y m \<and> daysInMonth y m \<le> 31"
  using leapDays_range[of y] by (simp add: daysInMonth_def)

text \<open>The month of a day up to three days after a day of month m is m only within the same month.\<close>

lemma month_after:
  assumes n: "day' = day + k" "1 \<le> k" "k \<le> 3" and same: "monthFromDay day' = monthFromDay day"
  shows "dateFromDay day < dateFromDay day'"
proof -
  define y m d where "y = yearFromDay day" and "m = monthFromDay day" and "d = dateFromDay day"
  note c = dayNumber_of_civil[of day, folded y_def m_def d_def]
  note mr = monthFromDay_range[of day, folded m_def]
  have day': "day' = dayNumber y m (d + k)"
    using c(1) n(1) by (simp add: dayNumber_def)
  show ?thesis
  proof (cases "d + k \<le> daysInMonth y m")
    case True
    have "dateFromDay day' = d + k"
      unfolding day' using mr c(2) n(2) True by (intro civil_of_dayNumber) simp_all
    with n(2) show ?thesis by (simp add: d_def)
  next
    case False
    define j where "j = d + k - daysInMonth y m"
    have j: "1 \<le> j" "j \<le> 3" using False c(3) n(3) by (simp_all add: j_def)
    have "day' = dayNumber y m (daysInMonth y m + 1) + (j - 1)"
      by (simp add: day' j_def dayNumber_def)
    also have "\<dots> = (if m < 11 then dayNumber y (m + 1) j else dayNumber (y + 1) 0 j)"
      using mr by (simp add: month_chain) (simp add: dayNumber_def)
    finally have d': "day' = (if m < 11 then dayNumber y (m + 1) j else dayNumber (y + 1) 0 j)" .
    have "monthFromDay day' = (if m < 11 then m + 1 else 0)"
    proof (cases "m < 11")
      case True
      then have "monthFromDay (dayNumber y (m + 1) j) = m + 1"
        using mr j daysInMonth_bounds[of y "m + 1"] by (intro civil_of_dayNumber) simp_all
      with True d' show ?thesis by simp
    next
      case False
      have "monthFromDay (dayNumber (y + 1) 0 j) = 0"
        using j daysInMonth_bounds[of "y + 1" 0] by (intro civil_of_dayNumber) simp_all
      with False d' show ?thesis by simp
    qed
    with same mr show ?thesis by (simp add: m_def split: if_splits)
  qed
qed

subsection \<open>Time values, the time zone of the host and \<open>Date\<close>\<close>

text \<open>
  \<open>MakeDay\<close> on integers: the day number of the first day of the month, months outside
  0 to 11 carried into the year, moved by the day of the month; and \<open>MakeDate\<close>.
\<close>

definition MakeDay :: "int \<Rightarrow> int \<Rightarrow> int \<Rightarrow> int" where
  "MakeDay year mon dt = dayNumber (year + mon div 12) (mon mod 12) 1 + dt - 1"

definition MakeDate :: "int \<Rightarrow> int \<Rightarrow> int" where
  "MakeDate day time = day * msPerDay + time"

text \<open>
  A \<open>Date\<close> holds a time value in UTC, or \<open>NaN\<close> (the Invalid Date). \<open>TimeClip\<close> admits
  at most \<open>8.64 * 10^15\<close> milliseconds, \<open>10^8\<close> days, on either side of the epoch.
\<close>

datatype JSDate = InvalidDate | Date int

definition TimeClip :: "int \<Rightarrow> JSDate" where
  "TimeClip time = (if \<bar>time\<bar> \<le> 8640000000000000 then Date time else InvalidDate)"

text \<open>
  The methods of \<open>Date\<close> that the source calls work in the local time of the host. The
  time zone of the host is a parameter: \<open>LocalTZA z t isUTC\<close> is the offset of local
  time from UTC in milliseconds, at the UTC time \<open>t\<close> when \<open>isUTC\<close> holds and at the
  local time \<open>t\<close> otherwise. Two properties of the offsets of ECMAScript make the type:
  an offset is less than a day, and a local time that a transition skips is read with the
  offset before the transition, so that reading a local time and going back to local time
  never lands before it.
\<close>

typedef zone = "{f :: int \<Rightarrow> bool \<Rightarrow> int.
    (\<forall>t b. \<bar>f t b\<bar> < msPerDay) \<and> (\<forall>x. x \<le> x - f x False + f (x - f x False) True)}"
  by (rule exI[of _ "\<lambda>_ _. 0"]) (simp add: msPerDay_def)

setup_lifting type_definition_zone

lift_definition LocalTZA :: "zone \<Rightarrow> int \<Rightarrow> bool \<Rightarrow> int" is "\<lambda>f. f" .

definition LocalTime :: "zone \<Rightarrow> int \<Rightarrow> int" where
  "LocalTime z t = t + LocalTZA z t True"

definition UTC :: "zone \<Rightarrow> int \<Rightarrow> int" where
  "UTC z t = t - LocalTZA z t False"

text \<open>
  Two hosts: one on UTC, and one that crosses the date line as Pacific/Apia did, ten
  hours behind UTC until 30 December 2011 10:00 UTC and fourteen hours ahead from then
  on, so that local time passes from the end of 29 December to the start of 31 December
  (the other changes of that zone are left out).
\<close>

lift_definition utcZone :: zone is "\<lambda>_ _. 0"
  by (simp add: msPerDay_def)

lift_definition apiaZone :: zone is
  "\<lambda>t isUTC. if isUTC then (if t < 1325239200000 then - 36000000 else 50400000)
              else (if t < 1325239200000 + 50400000 then - 36000000 else 50400000)"
  by (auto simp: msPerDay_def)

text \<open>
  \<open>new Date(year, month, 1)\<close>: \<open>NaN\<close> or an infinite argument gives the Invalid Date,
  the arguments are truncated, a year from 0 to 99 stands for 1900 to 1999, a month
  outside 0 to 11 carries into the year, and the local midnight so described is read in
  the zone of the host and clipped. \<open>MakeDay\<close> is computed exactly here; engines may
  give \<open>NaN\<close> earlier for arguments far outside the range of \<open>Date\<close>.
\<close>

definition newDate :: "zone \<Rightarrow> JSNumber \<Rightarrow> JSNumber \<Rightarrow> JSDate" where
  "newDate z year mon =
     (case (finiteInteger year, finiteInteger mon) of
        (Some y, Some m) \<Rightarrow>
          (let yr = (if 0 \<le> y \<and> y \<le> 99 then 1900 + y else y) in
           TimeClip (UTC z (MakeDate (MakeDay yr m 1) 0)))
      | _ \<Rightarrow> InvalidDate)"

definition getMonth :: "zone \<Rightarrow> JSDate \<Rightarrow> JSNumber" where
  "getMonth z date =
     (case date of
        InvalidDate \<Rightarrow> NaN
      | Date t \<Rightarrow> Fin (of_int (monthFromDay (Day (LocalTime z t)))))"

definition getDay :: "zone \<Rightarrow> JSDate \<Rightarrow> JSNumber" where
  "getDay z date =
     (case date of
        InvalidDate \<Rightarrow> NaN
      | Date t \<Rightarrow> Fin (of_int (weekDay (Day (LocalTime z t)))))"

text \<open>
  \<open>date.setDate(date.getDate() + 1)\<close>: the local time is taken apart, the day of the
  month is raised by one with the time within the day kept, and the result is read in the
  zone of the host and clipped.
\<close>

definition setDateNext :: "zone \<Rightarrow> JSDate \<Rightarrow> JSDate" where
  "setDateNext z date =
     (case date of
        InvalidDate \<Rightarrow> InvalidDate
      | Date t \<Rightarrow>
          (let lt = LocalTime z t;
               day = Day lt;
               dt = dateFromDay day + 1
           in TimeClip (UTC z (MakeDate (MakeDay (yearFromDay day) (monthFromDay day) dt)
                                        (TimeWithinDay lt)))))"

lemma zone_offset: "\<bar>LocalTZA z t b\<bar> < msPerDay"
  by transfer simp

lemma zone_forward: "x \<le> LocalTime z (UTC z x)"
  unfolding LocalTime_def UTC_def by transfer simp

lemma zone_ahead: "LocalTime z (UTC z x) < x + 2 * msPerDay"
  using zone_offset[of z x False] zone_offset[of z "x - LocalTZA z x False" True]
  by (simp add: LocalTime_def UTC_def)

lemma Day_split: "Day t * msPerDay + TimeWithinDay t = t"
  by (simp add: Day_def TimeWithinDay_def)

lemma Day_mono: "s \<le> t \<Longrightarrow> Day s \<le> Day t"
  by (simp add: Day_def msPerDay_def zdiv_mono1)

lemma Day_shift: "Day (t + k * msPerDay) = Day t + k"
  by (simp add: Day_def msPerDay_def)

lemma MakeDay_civil:
  "MakeDay (yearFromDay day) (monthFromDay day) (dateFromDay day + k) = day + k"
proof -
  have "monthFromDay day div 12 = 0" "monthFromDay day mod 12 = monthFromDay day"
    using monthFromDay_range[of day] by simp_all
  then show ?thesis
    using dayNumber_of_civil(1)[of day] by (simp add: MakeDay_def dayNumber_def)
qed

text \<open>One turn of the loop moves the local time forward by one to three days.\<close>

lemma setDateNext_local:
  assumes "setDateNext z (Date t) = Date t'"
  shows "\<exists>k. 1 \<le> k \<and> k \<le> 3 \<and> Day (LocalTime z t') = Day (LocalTime z t) + k"
proof -
  define lt where "lt = LocalTime z t"
  define x where "x = lt + 1 * msPerDay"
  have "MakeDate (MakeDay (yearFromDay (Day lt)) (monthFromDay (Day lt)) (dateFromDay (Day lt) + 1))
          (TimeWithinDay lt) = (Day lt + 1) * msPerDay + TimeWithinDay lt"
    unfolding MakeDate_def MakeDay_civil ..
  also have "\<dots> = x"
    using Day_split[of lt] by (simp add: x_def algebra_simps)
  finally have "MakeDate (MakeDay (yearFromDay (Day lt)) (monthFromDay (Day lt)) (dateFromDay (Day lt) + 1))
          (TimeWithinDay lt) = x" .
  then have "TimeClip (UTC z x) = Date t'"
    using assms by (simp add: setDateNext_def Let_def lt_def)
  then have t': "t' = UTC z x"
    by (simp add: TimeClip_def split: if_splits)
  have lo: "x \<le> LocalTime z t'" and hi: "LocalTime z t' < x + 2 * msPerDay"
    unfolding t' by (rule zone_forward, rule zone_ahead)
  have "Day x \<le> Day (LocalTime z t')" using lo by (rule Day_mono)
  moreover have "Day (LocalTime z t') \<le> Day (x + 2 * msPerDay)" using hi by (intro Day_mono) simp
  moreover have "Day x = Day lt + 1" unfolding x_def by (rule Day_shift)
  moreover have "Day (x + 2 * msPerDay) = Day lt + 3"
  proof -
    have "x + 2 * msPerDay = lt + 3 * msPerDay" by (simp add: x_def)
    then show ?thesis by (simp only: Day_shift)
  qed
  ultimately have "1 \<le> Day (LocalTime z t') - Day lt \<and> Day (LocalTime z t') - Day lt \<le> 3"
    by simp
  then show ?thesis
    by (intro exI[of _ "Day (LocalTime z t') - Day lt"]) (simp add: lt_def)
qed

subsection \<open>Business days and hours\<close>

text \<open>
  The \<open>while\<close> loop of \<open>getBusinessDaysInMonth\<close>, with the length of \<open>days\<close> as the
  accumulator. It terminates on every host: while the local month is \<open>month\<close> the day
  of the month grows with every turn.
\<close>

function businessDaysLoop :: "zone \<Rightarrow> JSDate \<Rightarrow> JSNumber \<Rightarrow> nat \<Rightarrow> nat" where
  "businessDaysLoop z date mon days =
     (if strictEquals (getMonth z date) mon then
        (let day = getDay z date;
             days' = (if \<not> strictEquals day (Fin 0) \<and> \<not> strictEquals day (Fin 6)
                      then Suc days else days)
         in businessDaysLoop z (setDateNext z date) mon days')
      else days)"
  by pat_completeness auto

text \<open>The measure of the loop: the days of the month still ahead, at most 31.\<close>

definition remainingInMonth :: "zone \<Rightarrow> JSDate \<Rightarrow> JSNumber \<Rightarrow> nat" where
  "remainingInMonth z date mon =
     (case date of
        InvalidDate \<Rightarrow> 0
      | Date t \<Rightarrow>
          if strictEquals (getMonth z date) mon
          then nat (32 - dateFromDay (Day (LocalTime z t))) else 0)"

lemma remainingInMonth_decreases:
  assumes "strictEquals (getMonth z date) mon"
  shows "remainingInMonth z (setDateNext z date) mon < remainingInMonth z date mon"
proof -
  from assms obtain t where date: "date = Date t"
    by (cases date) (simp_all add: getMonth_def strictEquals_def)
  define day where "day = Day (LocalTime z t)"
  have mon: "mon = Fin (of_int (monthFromDay day))"
    using assms by (simp add: date getMonth_def strictEquals_def day_def)
  have d31: "dateFromDay day \<le> 31"
    using dayNumber_of_civil(3)[of day] daysInMonth_bounds[of "yearFromDay day" "monthFromDay day"]
    by simp
  have now: "remainingInMonth z date mon = nat (32 - dateFromDay day)"
    using assms by (simp add: remainingInMonth_def date day_def)
  show ?thesis
  proof (cases "setDateNext z date")
    case InvalidDate
    have "remainingInMonth z InvalidDate mon = 0" by (simp add: remainingInMonth_def)
    then show ?thesis using d31 by (simp add: now InvalidDate)
  next
    case (Date t')
    then obtain k where k: "1 \<le> k" "k \<le> 3" "Day (LocalTime z t') = day + k"
      using setDateNext_local[of z t t'] by (auto simp: date day_def)
    show ?thesis
    proof (cases "strictEquals (getMonth z (Date t')) mon")
      case False
      then have "remainingInMonth z (Date t') mon = 0" by (simp add: remainingInMonth_def)
      then show ?thesis using d31 by (simp add: now Date)
    next
      case True
      then have "monthFromDay (day + k) = monthFromDay day"
        by (simp add: getMonth_def strictEquals_def mon k(3))
      from month_after[OF refl k(1,2) this] have "dateFromDay day < dateFromDay (day + k)" .
      moreover have "remainingInMonth z (Date t') mon = nat (32 - dateFromDay (day + k))"
        using True by (simp add: remainingInMonth_def k(3))
      ultimately show ?thesis
        using d31 by (simp add: now Date)
    qed
  qed
qed

termination businessDaysLoop
  by (relation "measure (\<lambda>(z, date, mon, days). remainingInMonth z date mon)")
     (simp_all add: remainingInMonth_decreases)

declare businessDaysLoop.simps [simp del]

definition getBusinessDaysInMonth :: "zone \<Rightarrow> JSNumber \<Rightarrow> JSNumber \<Rightarrow> nat" where
  "getBusinessDaysInMonth z year mon = businessDaysLoop z (newDate z year mon) mon 0"

text \<open>
  \<open>String.prototype.split\<close> on a one-character separator.
\<close>

fun split :: "char \<Rightarrow> string \<Rightarrow> string list" where
  "split sep [] = [[]]"
| "split sep (c # cs) =
     (if c = sep then [] # split sep cs
      else (case split sep cs of [] \<Rightarrow> [[c]] | part # parts \<Rightarrow> (c # part) # parts))"

text \<open>
  \<open>Number\<close> on a string, after \<open>StringToNumber\<close> of ECMAScript: white space is
  trimmed on both sides; the empty string is 0; a prefix \<open>0x\<close>, \<open>0o\<close> or \<open>0b\<close> (in either
  case, without a sign) introduces digits of radix 16, 8 or 2; otherwise an optional sign
  is followed by \<open>Infinity\<close> or by a decimal literal with an optional fraction and an
  optional exponent; anything else is \<open>NaN\<close>. The value of a literal is rounded to the
  nearest double (ECMAScript lets an engine round a literal of more than 20 significant
  digits from its first 20). White space is the ASCII part of the ECMAScript class.
\<close>

definition mathematicalValue :: "int \<Rightarrow> string \<Rightarrow> int" where
  "mathematicalValue R ds = foldl (\<lambda>acc c. acc * R + int (the (digitValue c))) 0 ds"

definition trim :: "string \<Rightarrow> string" where
  "trim s = rev (dropWhile isWhiteSpace (rev (dropWhile isWhiteSpace s)))"

definition exponentPart :: "string \<Rightarrow> int option" where
  "exponentPart s =
     (if s = [] then Some 0
      else if hd s = CHR ''e'' \<or> hd s = CHR ''E'' then
        (let t = tl s;
             ds = (if t \<noteq> [] \<and> (hd t = CHR ''+'' \<or> hd t = CHR ''-'') then tl t else t)
         in if ds \<noteq> [] \<and> list_all (isRadixDigit 10) ds
            then Some ((if t \<noteq> [] \<and> hd t = CHR ''-'' then - 1 else 1) * mathematicalValue 10 ds)
            else None)
      else None)"

definition unsignedDecimal :: "string \<Rightarrow> (int \<times> int) option" where
  "unsignedDecimal s =
     (let ip = takeWhile (isRadixDigit 10) s;
          r1 = dropWhile (isRadixDigit 10) s;
          dot = (r1 \<noteq> [] \<and> hd r1 = CHR ''.'');
          r2 = (if dot then tl r1 else r1);
          fp = (if dot then takeWhile (isRadixDigit 10) r2 else []);
          r3 = (if dot then dropWhile (isRadixDigit 10) r2 else r2)
      in if ip = [] \<and> fp = [] then None
         else (case exponentPart r3 of
                 None \<Rightarrow> None
               | Some e \<Rightarrow> Some (mathematicalValue 10 (ip @ fp), e - int (length fp))))"

definition scaled :: "int \<Rightarrow> int \<Rightarrow> rat" where
  "scaled M E = (if 0 \<le> E then of_int (M * 10 ^ nat E) else of_int M / 10 ^ nat (- E))"

definition nonDecimalRadix :: "string \<Rightarrow> nat option" where
  "nonDecimalRadix s =
     (let p = take 2 s in
      if p = ''0x'' \<or> p = ''0X'' then Some 16
      else if p = ''0o'' \<or> p = ''0O'' then Some 8
      else if p = ''0b'' \<or> p = ''0B'' then Some 2
      else None)"

definition Number :: "string \<Rightarrow> JSNumber" where
  "Number str =
     (let s = trim str in
      if s = [] then Fin 0
      else (case nonDecimalRadix s of
              Some R \<Rightarrow>
                (let ds = drop 2 s in
                 if ds \<noteq> [] \<and> list_all (isRadixDigit R) ds
                 then roundToDouble (of_int (mathematicalValue (int R) ds)) else NaN)
            | None \<Rightarrow>
                (let neg = (hd s = CHR ''-'');
                     body = (if hd s = CHR ''+'' \<or> hd s = CHR ''-'' then tl s else s)
                 in if body = ''Infinity'' then (if neg then NegInfinity else PosInfinity)
                    else (case unsignedDecimal body of
                            None \<Rightarrow> NaN
                          | Some (M, E) \<Rightarrow>
                              roundToDouble (if neg then - scaled M E else scaled M E)))))"

text \<open>
  \<open>const [year, month] = monthStr.split('-').map(Number)\<close>: a missing element is
  \<open>undefined\<close>, which \<open>new Date\<close> reads as \<open>NaN\<close> and for which \<open>month - 1\<close> is \<open>NaN\<close>.
\<close>

definition getBusinessHoursInMonth :: "zone \<Rightarrow> string \<Rightarrow> nat" where
  "getBusinessHoursInMonth z monthStr =
     (let nums = map Number (split CHR ''-'' monthStr);
          year = (if 0 < length nums then nums ! 0 else NaN);
          mon = (if 1 < length nums then nums ! 1 else NaN);
          businessDays = getBusinessDaysInMonth z year (subtract mon (Fin 1))
      in businessDays * 8)"



section \<open>Aggregation (ProjectList, Dashboard, TeamManager, geminiService)\<close>

text \<open>
  Costs are JavaScript numbers computed with \<open>*\<close>, \<open>/\<close> and \<open>+\<close>; they are modelled
  as real numbers with the same operations in the same order, so the rounding of
  doubles is not part of the model. The business hours of a month depend on the time
  zone of the host, the parameter \<open>tz\<close>.
\<close>

definition calculateProjectTotal ::
  "zone \<Rightarrow> Allocation list \<Rightarrow> TeamMember list \<Rightarrow> Role list \<Rightarrow> string \<Rightarrow> real" where
  "calculateProjectTotal tz allocs members roles projId =
     foldl (\<lambda>sum alloc.
        (let member = find (\<lambda>m. member_id m = memberId alloc) members;
             role = (case member of
                       None \<Rightarrow> None
                     | Some mb \<Rightarrow> find (\<lambda>r. role_id r = roleId mb) roles)
         in if member = None \<or> role = None then sum
            else (let hours = real (getBusinessHoursInMonth tz (month alloc)) *
                              (real_of_int (percentage alloc) / 100)
                  in sum + hours * defaultHourlyRate (the role))))
       0 (filter (\<lambda>a. projectId a = projId) allocs)"

text \<open>\<open>Array.from(new Set(xs))\<close>: the distinct elements in the order of first occurrence.\<close>

definition uniqueValues :: "'a list \<Rightarrow> 'a list" where
  "uniqueValues xs = foldl (\<lambda>acc x. if x \<in> set acc then acc else acc @ [x]) [] xs"

text \<open>
  The months of the allocation set, \<open>Array.from(new Set(allocations.map(a => a.month))).sort()\<close>;
  the default sort of strings is the lexicographic order of their code units.
\<close>

definition uniqueMonths :: "Allocation list \<Rightarrow> string list" where
  "uniqueMonths allocs = sort (uniqueValues (map month allocs))"

record FinancialRow =
  monthLabel :: string
  cost :: real
  revenue :: real
  hours :: nat

text \<open>
  \<open>financialData\<close> of the dashboard. \<open>getMonthName\<close> formats the label with the
  locale of the host and is a parameter.
\<close>

definition financialData ::
  "zone \<Rightarrow> (string \<Rightarrow> string) \<Rightarrow> Allocation list \<Rightarrow> TeamMember list \<Rightarrow> Role list
   \<Rightarrow> FinancialRow list" where
  "financialData tz getMonthName allocs members roles =
     map (\<lambda>mon.
        (let hoursInMonth = getBusinessHoursInMonth tz mon;
             totalCost =
               foldl (\<lambda>total alloc.
                  (let member = find (\<lambda>m. member_id m = memberId alloc) members;
                       role = (case member of
                                 Some mb \<Rightarrow> find (\<lambda>r. role_id r = roleId mb) roles
                               | None \<Rightarrow> None)
                   in if member \<noteq> None \<and> role \<noteq> None then
                        (let hours = real hoursInMonth * (real_of_int (percentage alloc) / 100)
                         in total + hours * defaultHourlyRate (the role))
                      else total))
                 0 (filter (\<lambda>a. month a = mon) allocs)
         in \<lparr>monthLabel = getMonthName mon, cost = totalCost,
             revenue = totalCost * 1.3, hours = hoursInMonth\<rparr>))
       (uniqueMonths allocs)"

text \<open>The total of one member in one month (\<open>memberMonthlyTotals\<close> of the capacity view).\<close>

definition memberMonthlyTotal :: "Allocation list \<Rightarrow> string \<Rightarrow> string \<Rightarrow> int" where
  "memberMonthlyTotal allocs memId mon =
     foldl (\<lambda>sum a. sum + percentage a) 0
       (filter (\<lambda>a. memberId a = memId \<and> month a = mon) allocs)"

text \<open>
  The pre-check of \<open>analyzeResourceForecast\<close>: the strings pushed to
  \<open>summary.overAllocations\<close>, in the order of the two nested \<open>forEach\<close>.
\<close>

definition overAllocations :: "TeamMember list \<Rightarrow> Allocation list \<Rightarrow> string list" where
  "overAllocations members allocs =
     concat (map (\<lambda>member.
       concat (map (\<lambda>mon.
         (let totalAlloc =
                foldl (\<lambda>sum a. sum + percentage a) 0
                  (filter (\<lambda>a. memberId a = member_id member \<and> month a = mon) allocs)
          in if totalAlloc > 100
             then [name member @ '' is at '' @ toString totalAlloc @ ''% in '' @ mon]
             else []))
         (uniqueMonths allocs)))
       members)"

section \<open>Notions of the specification and of the proofs\<close>

text \<open>
  Auxiliary notions of the proofs, not functions of the source: the row and the cell of a
  record, the invariant of the store, and the effect of one write on the list of records.
\<close>

definition sameRow :: "string \<Rightarrow> string \<Rightarrow> Allocation \<Rightarrow> bool" where
  "sameRow projId memId a \<longleftrightarrow> projectId a = projId \<and> memberId a = memId"

definition cellOf :: "Allocation \<Rightarrow> string \<times> string \<times> string" where
  "cellOf a = (projectId a, memberId a, month a)"

text \<open>
  The invariant: the records have pairwise distinct ids and pairwise distinct cells,
  every percentage is positive, the identifier sequence never repeats, and every id in
  the store was issued by it.
\<close>

definition storeOK :: "World \<Rightarrow> bool" where
  "storeOK w \<longleftrightarrow>
     distinct (map alloc_id (allocations w)) \<and>
     distinct (map cellOf (allocations w)) \<and>
     list_all (\<lambda>a. 0 < percentage a) (allocations w) \<and>
     inj (uuids w) \<and>
     list_all (\<lambda>a. alloc_id a \<in> uuids w ` {..<issued w}) (allocations w)"

text \<open>
  What a write of \<open>v\<close> to a cell does to the list of records: a positive value replaces
  the percentage of the cell's records or, when there is none, appends a record with the
  id \<open>u\<close>; any other value removes the cell's records.
\<close>

definition writeCell ::
  "string \<Rightarrow> string \<Rightarrow> string \<Rightarrow> int \<Rightarrow> string \<Rightarrow> Allocation list \<Rightarrow> Allocation list" where
  "writeCell projId memId mon v u allocs =
     (if v > 0 then
        (if list_ex (sameCell projId memId mon) allocs
         then map (\<lambda>a. if sameCell projId memId mon a then a\<lparr>percentage := v\<rparr> else a) allocs
         else allocs @ [\<lparr>alloc_id = u, projectId = projId, memberId = memId, month = mon, percentage = v\<rparr>])
      else filter (\<lambda>a. \<not> sameCell projId memId mon a) allocs)"

definition allPositive :: "Allocation list \<Rightarrow> bool" where
  "allPositive allocs = list_all (\<lambda>a. 0 < percentage a) allocs"

text \<open>
  The lookup of a cell, \<open>allocations.find(...)\<close> on the three key fields, and the
  deletion of a cell's record as the store contract words it (delete the existing record
  if there is one, else do nothing).
\<close>

definition getAllocation :: "Allocation list \<Rightarrow> string \<Rightarrow> string \<Rightarrow> string \<Rightarrow> Allocation option" where
  "getAllocation allocs projId memId mon = find (sameCell projId memId mon) allocs"

definition deleteExisting :: "string \<Rightarrow> string \<Rightarrow> string \<Rightarrow> Allocation list \<Rightarrow> Allocation list" where
  "deleteExisting projId memId mon allocs =
     (case getAllocation allocs projId memId mon of
        None \<Rightarrow> allocs
      | Some e \<Rightarrow> deleteAllocation (alloc_id e) allocs)"

text \<open>
  A sequence of single-cell writes, each through \<open>updateAllocationValue\<close> against the
  store of its time.
\<close>

fun applyWrites :: "World \<Rightarrow> ((string \<times> string \<times> string) \<times> int) list \<Rightarrow> World" where
  "applyWrites w [] = w"
| "applyWrites w (((p, m, mon), v) # ws) =
     applyWrites (updateAllocationValue (allocations w) p m mon v w) ws"

definition enters :: "(string \<times> string \<times> string) list \<Rightarrow> Event list" where
  "enters cs = map (\<lambda>(p, m, mon). MouseEnter p m mon) cs"

fun clickCycles :: "nat \<Rightarrow> string \<Rightarrow> string \<Rightarrow> string \<Rightarrow> Event list" where
  "clickCycles 0 p m mon = []"
| "clickCycles (Suc k) p m mon = clickCycles k p m mon @ [MouseDown p m mon, MouseUp p m mon]"

text \<open>
  The invariant of a gesture started on the cell \<open>(P, M, m0)\<close> with paint value \<open>PV\<close>
  over the store \<open>base\<close>, when \<open>S\<close> is the set of months painted so far.
\<close>

definition gestureInv ::
  "string \<Rightarrow> string \<Rightarrow> string \<Rightarrow> int \<Rightarrow> Allocation list \<Rightarrow> string set \<Rightarrow> World \<Rightarrow> bool" where
  "gestureInv P M m0 PV base S w \<longleftrightarrow>
     storeOK w \<and> active (dragState w) \<and>
     drag_projectId (dragState w) = P \<and> drag_memberId (dragState w) = M \<and>
     startMonth (dragState w) = m0 \<and> paintValue (dragState w) = PV \<and>
     paintedCells (dragState w) = cellKey P M ` S \<and>
     (hasMoved (dragState w) \<longleftrightarrow> S \<noteq> {}) \<and> (S \<noteq> {} \<longrightarrow> m0 \<in> S) \<and>
     (\<forall>mon\<in>S. cellPercentage (allocations w) P M mon = (if PV > 0 then PV else 0)) \<and>
     (\<forall>p m mon. \<not> (p = P \<and> m = M \<and> mon \<in> S) \<longrightarrow>
        find (sameCell p m mon) (allocations w) = find (sameCell p m mon) base) \<and>
     (S = {} \<longrightarrow> allocations w = base)"

definition paintStep ::
  "string \<Rightarrow> string \<Rightarrow> string \<Rightarrow> string set \<Rightarrow> string \<times> string \<times> string \<Rightarrow> string set" where
  "paintStep P M m0 S c =
     (case c of (p, m, mon) \<Rightarrow>
        if p = P \<and> m = M \<and> \<not> (S = {} \<and> mon = m0) then insert mon (insert m0 S) else S)"


text \<open>
  A host keeps the days of a month when no local time of the month, read in its time
  zone, comes out on another calendar day. Daylight saving shifts keep the days; a zone
  that moves across the date line skips a whole day and does not.
\<close>

definition keepsDays :: "zone \<Rightarrow> int \<Rightarrow> int \<Rightarrow> bool" where
  "keepsDays z y m \<longleftrightarrow>
     (\<forall>x. yearFromDay (Day x) = y \<and> monthFromDay (Day x) = m \<longrightarrow>
          Day (LocalTime z (UTC z x)) = Day x)"

text \<open>
  The contribution of one allocation to a cost total, as the aggregation rules word it:
  nothing when the member or the member's role does not resolve, else the business
  hours of the month times the fraction allocated times the hourly rate of the role.
\<close>

definition contribution :: "zone \<Rightarrow> TeamMember list \<Rightarrow> Role list \<Rightarrow> Allocation \<Rightarrow> real" where
  "contribution tz members roles alloc =
     (case find (\<lambda>m. member_id m = memberId alloc) members of
        None \<Rightarrow> 0
      | Some mb \<Rightarrow>
          (case find (\<lambda>r. role_id r = roleId mb) roles of
             None \<Rightarrow> 0
           | Some r \<Rightarrow>
               real (getBusinessHoursInMonth tz (month alloc)) * (real_of_int (percentage alloc) / 100)
               * defaultHourlyRate r))"

text \<open>
  The finding of the over-allocation check for a member and a month, and the test that
  emits it.
\<close>

definition finding :: "Allocation list \<Rightarrow> TeamMember \<times> string \<Rightarrow> string" where
  "finding allocs = (\<lambda>(mb, mon).
     name mb @ '' is at '' @ toString (memberMonthlyTotal allocs (member_id mb) mon) @ ''% in '' @ mon)"

definition overAllocated :: "Allocation list \<Rightarrow> TeamMember \<times> string \<Rightarrow> bool" where
  "overAllocated allocs = (\<lambda>(mb, mon). 100 < memberMonthlyTotal allocs (member_id mb) mon)"

section \<open>Example data\<close>

text \<open>A concrete world on which the theorems with hypotheses are instantiated.\<close>

definition exampleUuids :: "nat \<Rightarrow> string" where
  "exampleUuids n = replicate (Suc n) CHR ''u''"

definition idleDrag :: DragState where
  "idleDrag = \<lparr>active = False, drag_projectId = [], drag_memberId = [], startMonth = [],
                startValue = 0, paintValue = 0, hasMoved = False, paintedCells = {}\<rparr>"

definition exampleWorld :: World where
  "exampleWorld =
     \<lparr>allocations =
        [\<lparr>alloc_id = ''u'', projectId = ''p1'', memberId = ''m1'', month = ''2024-04'', percentage = 100\<rparr>,
         \<lparr>alloc_id = ''uu'', projectId = ''p2'', memberId = ''m1'', month = ''2024-04'', percentage = 80\<rparr>],
      dragState = idleDrag, addedMembers = (\<lambda>_. []), editingCell = None, editValue = [],
      uuids = exampleUuids, issued = 2\<rparr>"

definition draggingWorld :: World where
  "draggingWorld = exampleWorld\<lparr>dragState :=
     \<lparr>active = True, drag_projectId = ''p2'', drag_memberId = ''m1'', startMonth = ''2024-03'',
      startValue = 50, paintValue = 0, hasMoved = True,
      paintedCells = {cellKey ''p2'' ''m1'' ''2024-03''}\<rparr>\<rparr>"

definition editingWorld :: World where
  "editingWorld = exampleWorld\<lparr>editingCell := Some (''p2'', ''m1'', ''2024-04''), editValue := ''0''\<rparr>"

definition enteringWorld :: World where
  "enteringWorld = exampleWorld\<lparr>editingCell := Some (''p1'', ''m1'', ''2024-04''), editValue := ''150''\<rparr>"

definition exampleRoles :: "Role list" where
  "exampleRoles = [\<lparr>role_id = ''1'', title = ''Senior Developer'', defaultHourlyRate = 150\<rparr>]"

definition exampleMembers :: "TeamMember list" where
  "exampleMembers =
     [\<lparr>member_id = ''m1'', name = ''Sarah Jenkins'', roleId = ''1'', avatarUrl = None, type = FULL_TIME\<rparr>,
      \<lparr>member_id = ''m2'', name = ''Mike Ross'', roleId = ''3'', avatarUrl = None, type = CONTRACTOR\<rparr>]"

definition exampleAllocations :: "Allocation list" where
  "exampleAllocations =
     [\<lparr>alloc_id = ''u'', projectId = ''p1'', memberId = ''m1'', month = ''2024-04'', percentage = 50\<rparr>,
      \<lparr>alloc_id = ''uu'', projectId = ''p1'', memberId = ''m2'', month = ''2024-04'', percentage = 100\<rparr>,
      \<lparr>alloc_id = ''uuu'', projectId = ''p1'', memberId = ''m9'', month = ''2024-02'', percentage = 100\<rparr>,
      \<lparr>alloc_id = ''uuuu'', projectId = ''p2'', memberId = ''m1'', month = ''2024-04'', percentage = 150\<rparr>]"

text \<open>
  A team of three and a store in which the third member, \<open>m9\<close>, is booked at 500 percent
  in February 2024.
\<close>

definition exampleTeam :: "TeamMember list" where
  "exampleTeam = exampleMembers @
     [\<lparr>member_id = ''m9'', name = ''David Kim'', roleId = ''1'', avatarUrl = None, type = CONSULTANT\<rparr>]"

definition overbookedAllocations :: "Allocation list" where
  "overbookedAllocations = exampleAllocations @
     [\<lparr>alloc_id = ''uuuuu'', projectId = ''p2'', memberId = ''m9'', month = ''2024-02'', percentage = 400\<rparr>]"

section \<open>One write, on the list of records\<close>

lemma find_None_iff_ex: "find P xs = None \<longleftrightarrow> \<not> list_ex P xs"
  by (induction xs) auto

lemma find_Some_mem: "find P xs = Some x \<Longrightarrow> x \<in> set xs \<and> P x"
  by (induction xs) (auto split: if_splits)

lemma sameCell_cellOf: "sameCell p m mon a \<longleftrightarrow> cellOf a = (p, m, mon)"
  by (auto simp: sameCell_def cellOf_def)

lemma distinct_cell_unique:
  assumes "distinct (map cellOf xs)" "e \<in> set xs" "a \<in> set xs" "sameCell p m mon e"
  shows "sameCell p m mon a \<longleftrightarrow> a = e"
  using assms by (auto simp: sameCell_cellOf distinct_map inj_on_def)

lemma distinct_id_unique:
  assumes "distinct (map alloc_id xs)" "e \<in> set xs" "a \<in> set xs"
  shows "alloc_id a = alloc_id e \<longleftrightarrow> a = e"
  using assms by (auto simp: distinct_map inj_on_def)

lemma deleteAllocation_cell:
  assumes "distinct (map alloc_id xs)" "distinct (map cellOf xs)"
    and "e \<in> set xs" "sameCell p m mon e"
  shows "deleteAllocation (alloc_id e) xs = filter (\<lambda>a. \<not> sameCell p m mon a) xs"
proof -
  have "\<And>a. a \<in> set xs \<Longrightarrow> (alloc_id a \<noteq> alloc_id e) = (\<not> sameCell p m mon a)"
    using distinct_cell_unique[OF assms(2,3) _ assms(4)] distinct_id_unique[OF assms(1,3)]
    by blast
  then show ?thesis
    unfolding deleteAllocation_def by (rule filter_cong[OF refl])
qed

lemma updateAllocation_cell:
  assumes "distinct (map alloc_id xs)" "distinct (map cellOf xs)"
    and "e \<in> set xs" "sameCell p m mon e"
  shows "updateAllocation (e\<lparr>percentage := v\<rparr>) xs =
         map (\<lambda>a. if sameCell p m mon a then a\<lparr>percentage := v\<rparr> else a) xs"
proof -
  have "\<And>a. a \<in> set xs \<Longrightarrow>
      (if alloc_id a = alloc_id (e\<lparr>percentage := v\<rparr>) then e\<lparr>percentage := v\<rparr> else a) =
      (if sameCell p m mon a then a\<lparr>percentage := v\<rparr> else a)"
    using distinct_cell_unique[OF assms(2,3) _ assms(4)] distinct_id_unique[OF assms(1,3)]
    by simp
  then show ?thesis
    unfolding updateAllocation_def by (rule map_cong[OF refl])
qed

lemma updateAllocationValue_writeCell:
  assumes ok: "distinct (map alloc_id (allocations w))" "distinct (map cellOf (allocations w))"
    and snap: "find (sameCell p m mon) snap = find (sameCell p m mon) (allocations w)"
  shows "allocations (updateAllocationValue snap p m mon v w) =
         writeCell p m mon v (uuids w (issued w)) (allocations w)"
proof (cases "find (sameCell p m mon) (allocations w)")
  case None
  then have nex: "\<not> list_ex (sameCell p m mon) (allocations w)"
    by (simp add: find_None_iff_ex)
  then have "filter (\<lambda>a. \<not> sameCell p m mon a) (allocations w) = allocations w"
    by (simp add: list_ex_iff filter_id_conv)
  with None nex snap show ?thesis
    by (simp add: updateAllocationValue_def writeCell_def randomUUID_def addAllocation_def)
next
  case (Some e)
  then have e: "e \<in> set (allocations w)" "sameCell p m mon e"
    using find_Some_mem[of "sameCell p m mon" "allocations w" e] by simp_all
  then have ex: "list_ex (sameCell p m mon) (allocations w)"
    by (auto simp: list_ex_iff)
  note del = deleteAllocation_cell[OF ok e]
  note upd = updateAllocation_cell[OF ok e, of v]
  have same: "map (\<lambda>a. if sameCell p m mon a then a\<lparr>percentage := v\<rparr> else a) (allocations w) = allocations w"
    if "percentage e = v"
  proof (rule map_idI)
    fix a assume "a \<in> set (allocations w)"
    then show "(if sameCell p m mon a then a\<lparr>percentage := v\<rparr> else a) = a"
      using distinct_cell_unique[OF ok(2) e(1) _ e(2), of a] that by auto
  qed
  show ?thesis
  proof (cases "v > 0")
    case True
    then show ?thesis
      using Some snap ex upd same
      by (simp add: updateAllocationValue_def writeCell_def)
  next
    case False
    then show ?thesis
      using Some snap del
      by (simp add: updateAllocationValue_def writeCell_def)
  qed
qed

lemma cellPercentage_find:
  "cellPercentage xs p m mon = (case find (sameCell p m mon) xs of None \<Rightarrow> 0 | Some a \<Rightarrow> percentage a)"
  by (simp add: cellPercentage_def split: option.splits)

lemma sameCell_neq:
  "(p', m', mon') \<noteq> (p, m, mon) \<Longrightarrow> sameCell p m mon a \<Longrightarrow> \<not> sameCell p' m' mon' a"
  by (auto simp: sameCell_def)

lemma sameCell_percentage_update [simp]:
  "sameCell p m mon (a\<lparr>percentage := v\<rparr>) = sameCell p m mon a"
  by (simp add: sameCell_def)

lemma find_writeCell_other:
  assumes "(p', m', mon') \<noteq> (p, m, mon)"
  shows "find (sameCell p' m' mon') (writeCell p m mon v u xs) = find (sameCell p' m' mon') xs"
proof -
  have a: "find (sameCell p' m' mon') (filter (\<lambda>a. \<not> sameCell p m mon a) xs) = find (sameCell p' m' mon') xs"
    using sameCell_neq[OF assms] by (induction xs) auto
  have b: "find (sameCell p' m' mon') (map (\<lambda>a. if sameCell p m mon a then a\<lparr>percentage := v\<rparr> else a) xs)
           = find (sameCell p' m' mon') xs"
    using sameCell_neq[OF assms] by (induction xs) auto
  have c: "find (sameCell p' m' mon')
             (xs @ [\<lparr>alloc_id = u, projectId = p, memberId = m, month = mon, percentage = v\<rparr>])
           = find (sameCell p' m' mon') xs"
    using assms by (induction xs) (auto simp: sameCell_def)
  show ?thesis by (simp add: writeCell_def a b c)
qed

lemma find_writeCell_same:
  "find (sameCell p m mon) (writeCell p m mon v u xs) =
     (if v > 0 then
        (case find (sameCell p m mon) xs of
           Some e \<Rightarrow> Some (e\<lparr>percentage := v\<rparr>)
         | None \<Rightarrow> Some \<lparr>alloc_id = u, projectId = p, memberId = m, month = mon, percentage = v\<rparr>)
      else None)"
proof -
  have a: "find (sameCell p m mon) (filter (\<lambda>a. \<not> sameCell p m mon a) xs) = None"
    by (induction xs) auto
  have b: "find (sameCell p m mon) (map (\<lambda>a. if sameCell p m mon a then a\<lparr>percentage := v\<rparr> else a) xs)
           = map_option (\<lambda>e. e\<lparr>percentage := v\<rparr>) (find (sameCell p m mon) xs)"
    by (induction xs) auto
  have c: "\<not> list_ex (sameCell p m mon) xs \<Longrightarrow> find (sameCell p m mon) (xs @ [a]) = (if sameCell p m mon a then Some a else None)" for a
    by (induction xs) auto
  have d: "list_ex (sameCell p m mon) xs \<Longrightarrow> \<exists>e. find (sameCell p m mon) xs = Some e"
    using find_None_iff_ex[of "sameCell p m mon" xs] by auto
  have e: "sameCell p m mon \<lparr>alloc_id = u, projectId = p, memberId = m, month = mon, percentage = v\<rparr>"
    by (simp add: sameCell_def)
  show ?thesis
  proof (cases "list_ex (sameCell p m mon) xs")
    case True
    with d obtain x where "find (sameCell p m mon) xs = Some x" by blast
    with True show ?thesis by (simp add: writeCell_def a b)
  next
    case False
    then have "find (sameCell p m mon) xs = None" by (simp add: find_None_iff_ex)
    with False show ?thesis by (simp add: writeCell_def a c e)
  qed
qed

lemma cellPercentage_writeCell_same:
  "cellPercentage (writeCell p m mon v u xs) p m mon = (if v > 0 then v else 0)"
  by (simp add: cellPercentage_find find_writeCell_same split: option.splits)

lemma cellPercentage_writeCell_other:
  "(p', m', mon') \<noteq> (p, m, mon) \<Longrightarrow>
   cellPercentage (writeCell p m mon v u xs) p' m' mon' = cellPercentage xs p' m' mon'"
  by (simp add: cellPercentage_find find_writeCell_other)

lemma filter_writeCell_others:
  "filter (\<lambda>a. \<not> sameCell p m mon a) (writeCell p m mon v u xs) = filter (\<lambda>a. \<not> sameCell p m mon a) xs"
proof -
  have "filter (\<lambda>a. \<not> sameCell p m mon a) (map (\<lambda>a. if sameCell p m mon a then a\<lparr>percentage := v\<rparr> else a) xs)
        = filter (\<lambda>a. \<not> sameCell p m mon a) xs"
    by (induction xs) auto
  then show ?thesis
    by (simp add: writeCell_def sameCell_def)
qed

lemma filter_writeCell_row:
  "filter (\<lambda>a. \<not> sameRow p m a) (writeCell p m mon v u xs) = filter (\<lambda>a. \<not> sameRow p m a) xs"
proof -
  have "filter (\<lambda>a. \<not> sameRow p m a) (filter (\<lambda>a. \<not> sameCell p m mon a) ys)
        = filter (\<lambda>a. \<not> sameRow p m a) ys" for ys
    by (induction ys) (auto simp: sameRow_def sameCell_def)
  then show ?thesis
    using filter_writeCell_others[of p m mon v u xs, THEN arg_cong, of "filter (\<lambda>a. \<not> sameRow p m a)"]
    by simp
qed

lemma writeCell_positive:
  "list_all (\<lambda>a. 0 < percentage a) xs \<Longrightarrow> list_all (\<lambda>a. 0 < percentage a) (writeCell p m mon v u xs)"
  by (auto simp: writeCell_def list_all_iff)

lemma writeCell_ids:
  "set (map alloc_id (writeCell p m mon v u xs)) \<subseteq> insert u (set (map alloc_id xs))"
  by (auto simp: writeCell_def)

lemma map_percentage_keeps:
  "map alloc_id (map (\<lambda>a. if sameCell p m mon a then a\<lparr>percentage := v\<rparr> else a) xs) = map alloc_id xs"
  "map cellOf (map (\<lambda>a. if sameCell p m mon a then a\<lparr>percentage := v\<rparr> else a) xs) = map cellOf xs"
  by (induction xs) (auto simp: cellOf_def)

lemma writeCell_distinct_ids:
  assumes "distinct (map alloc_id xs)" "u \<notin> alloc_id ` set xs"
  shows "distinct (map alloc_id (writeCell p m mon v u xs))"
  unfolding writeCell_def
  using assms by (simp add: map_percentage_keeps distinct_map_filter del: map_map)

lemma writeCell_distinct_cells:
  assumes "distinct (map cellOf xs)"
  shows "distinct (map cellOf (writeCell p m mon v u xs))"
proof -
  have "\<not> list_ex (sameCell p m mon) xs \<Longrightarrow> (p, m, mon) \<notin> cellOf ` set xs"
    by (auto simp: list_ex_iff sameCell_cellOf)
  then show ?thesis
    unfolding writeCell_def
    using assms by (simp add: map_percentage_keeps distinct_map_filter cellOf_def del: map_map)
qed

lemma updateAllocationValue_fields [simp]:
  "dragState (updateAllocationValue snap p m mon v w) = dragState w"
  "uuids (updateAllocationValue snap p m mon v w) = uuids w"
  "addedMembers (updateAllocationValue snap p m mon v w) = addedMembers w"
  "editingCell (updateAllocationValue snap p m mon v w) = editingCell w"
  "editValue (updateAllocationValue snap p m mon v w) = editValue w"
  by (simp_all add: updateAllocationValue_def randomUUID_def Let_def split: option.splits)

lemma updateAllocationValue_issued:
  "issued (updateAllocationValue snap p m mon v w) =
     (if v > 0 \<and> find (sameCell p m mon) snap = None then Suc (issued w) else issued w)"
  by (simp add: updateAllocationValue_def randomUUID_def Let_def split: option.splits)

lemma fresh_uuid:
  assumes "inj (uuids w)" "list_all (\<lambda>a. alloc_id a \<in> uuids w ` {..<issued w}) (allocations w)"
  shows "uuids w (issued w) \<notin> alloc_id ` set (allocations w)"
proof
  assume "uuids w (issued w) \<in> alloc_id ` set (allocations w)"
  then obtain a where "a \<in> set (allocations w)" "alloc_id a = uuids w (issued w)" by auto
  with assms(2) obtain k where "k < issued w" "uuids w k = uuids w (issued w)"
    by (auto simp: list_all_iff)
  with assms(1) show False by (auto dest: injD)
qed

lemma updateAllocationValue_storeOK:
  assumes ok: "storeOK w"
    and snap: "find (sameCell p m mon) snap = find (sameCell p m mon) (allocations w)"
  shows "storeOK (updateAllocationValue snap p m mon v w)"
proof -
  let ?w' = "updateAllocationValue snap p m mon v w"
  from ok have d1: "distinct (map alloc_id (allocations w))"
    and d2: "distinct (map cellOf (allocations w))"
    and pos: "list_all (\<lambda>a. 0 < percentage a) (allocations w)"
    and inj: "inj (uuids w)"
    and rng: "list_all (\<lambda>a. alloc_id a \<in> uuids w ` {..<issued w}) (allocations w)"
    by (simp_all add: storeOK_def)
  have eq: "allocations ?w' = writeCell p m mon v (uuids w (issued w)) (allocations w)"
    by (rule updateAllocationValue_writeCell[OF d1 d2 snap])
  have fresh: "uuids w (issued w) \<notin> alloc_id ` set (allocations w)"
    by (rule fresh_uuid[OF inj rng])
  have a: "distinct (map alloc_id (allocations ?w'))"
    unfolding eq by (rule writeCell_distinct_ids[OF d1 fresh])
  have b: "distinct (map cellOf (allocations ?w'))"
    unfolding eq by (rule writeCell_distinct_cells[OF d2])
  have c: "list_all (\<lambda>a. 0 < percentage a) (allocations ?w')"
    unfolding eq by (rule writeCell_positive[OF pos])
  have mono: "uuids w ` {..<issued w} \<subseteq> uuids w ` {..<issued ?w'}"
    by (auto simp: updateAllocationValue_issued)
  have d: "list_all (\<lambda>a. alloc_id a \<in> uuids w ` {..<issued ?w'}) (allocations ?w')"
  proof (cases "v > 0 \<and> find (sameCell p m mon) (allocations w) = None")
    case True
    then have "\<not> list_ex (sameCell p m mon) (allocations w)"
      by (simp add: find_None_iff_ex)
    with True have "allocations ?w' = allocations w @
        [\<lparr>alloc_id = uuids w (issued w), projectId = p, memberId = m, month = mon, percentage = v\<rparr>]"
      by (simp add: eq writeCell_def)
    moreover have "issued ?w' = Suc (issued w)"
      using True snap by (simp add: updateAllocationValue_issued)
    ultimately show ?thesis
      using rng by (auto simp: list_all_iff)
  next
    case False
    then have "alloc_id ` set (allocations ?w') \<subseteq> alloc_id ` set (allocations w)"
      by (auto simp: eq writeCell_def find_None_iff_ex)
    moreover have "alloc_id ` set (allocations w) \<subseteq> uuids w ` {..<issued w}"
      using rng by (auto simp: list_all_iff)
    ultimately have "alloc_id ` set (allocations ?w') \<subseteq> uuids w ` {..<issued ?w'}"
      using mono by blast
    then show ?thesis
      by (auto simp: list_all_iff)
  qed
  show ?thesis
    using a b c d inj by (simp add: storeOK_def)
qed

section \<open>Positive percentages\<close>

lemma updateAllocationValue_positive:
  assumes "allPositive (allocations w)"
  shows "allPositive (allocations (updateAllocationValue snap p m mon v w))"
  using assms
  by (auto simp: updateAllocationValue_def randomUUID_def Let_def allPositive_def list_all_iff
      updateAllocation_def addAllocation_def deleteAllocation_def split: option.splits)

lemma addPainted_allocations [simp]: "allocations (addPainted k w) = allocations w"
  by (simp add: addPainted_def)

lemma endGesture_allocations [simp]: "allocations (endGesture w) = allocations w"
  by (simp add: endGesture_def)

lemma handleCellMouseEnter_positive:
  assumes "allPositive (allocations w)"
  shows "allPositive (allocations (handleCellMouseEnter p m mon w))"
proof -
  have 1: "allPositive (allocations (updateAllocationValue snap p m mon' v (w\<lparr>dragState := d\<rparr>)))" for snap mon' v d
    using assms by (intro updateAllocationValue_positive) simp
  have 2: "allPositive (allocations (updateAllocationValue snap p m mon' v
              (addPainted k (updateAllocationValue snap' p m mon'' v' (w\<lparr>dragState := d\<rparr>)))))"
    for snap snap' mon' mon'' v v' d k
    by (intro updateAllocationValue_positive) (simp add: 1)
  show ?thesis
    using assms 1 2 updateAllocationValue_positive[OF assms]
    by (simp add: handleCellMouseEnter_def Let_def)
qed

lemma foldl_delete_allocations:
  "allocations (foldl (\<lambda>w' a. w'\<lparr>allocations := deleteAllocation (alloc_id a) (allocations w')\<rparr>) w xs)
   = filter (\<lambda>a. alloc_id a \<notin> alloc_id ` set xs) (allocations w)"
  by (induction xs arbitrary: w) (auto simp: deleteAllocation_def intro: filter_cong)

lemma handleRemoveMemberFromProject_allocations:
  "allocations (handleRemoveMemberFromProject p m w) =
     filter (\<lambda>a. alloc_id a \<notin> alloc_id ` {b \<in> set (allocations w). projectId b = p \<and> memberId b = m})
       (allocations w)"
  by (simp add: handleRemoveMemberFromProject_def Let_def foldl_delete_allocations)

lemma fire_positive:
  assumes "allPositive (allocations w)"
  shows "allPositive (allocations (fire w ev))"
proof (cases ev)
  case (MouseEnter p m mon)
  then show ?thesis using handleCellMouseEnter_positive[OF assms] by simp
next
  case (MouseUp p m mon)
  then show ?thesis
    using assms updateAllocationValue_positive[OF assms]
    by (simp add: handleCellMouseUp_def handleGlobalMouseUp_def Let_def)
next
  case Commit
  then show ?thesis
    using assms updateAllocationValue_positive[OF assms]
    by (simp add: saveEditing_def Let_def split: option.splits prod.splits)
next
  case (RemoveMember p m)
  then show ?thesis
    using assms
    by (simp add: handleRemoveMemberFromProject_allocations allPositive_def list_all_iff)
qed (use assms in \<open>simp_all add: handleCellMouseDown_def handleGlobalMouseUp_def startEditing_def
      handleAddMemberToProject_def\<close>)

lemma run_positive:
  "allPositive (allocations w) \<Longrightarrow> allPositive (allocations (run w evs))"
  unfolding run_def by (induction evs arbitrary: w) (simp_all add: fire_positive)

section \<open>The store invariant along events\<close>

lemma storeOK_cong:
  assumes "allocations w' = allocations w" "uuids w' = uuids w" "issued w' = issued w"
  shows "storeOK w' = storeOK w"
  using assms by (simp add: storeOK_def)

lemma storeOK_dragState_update [simp]: "storeOK (w\<lparr>dragState := d\<rparr>) = storeOK w"
  by (rule storeOK_cong) simp_all

lemma storeOK_addPainted [simp]: "storeOK (addPainted k w) = storeOK w"
  by (simp add: addPainted_def)

lemma storeOK_endGesture [simp]: "storeOK (endGesture w) = storeOK w"
  by (simp add: endGesture_def)

lemma find_after_write_other:
  assumes ok: "storeOK w"
    and snap: "find (sameCell p m mon) snap = find (sameCell p m mon) (allocations w)"
    and neq: "(p', m', mon') \<noteq> (p, m, mon)"
  shows "find (sameCell p' m' mon') (allocations (updateAllocationValue snap p m mon v w))
         = find (sameCell p' m' mon') (allocations w)"
proof -
  from ok have "distinct (map alloc_id (allocations w))" "distinct (map cellOf (allocations w))"
    by (simp_all add: storeOK_def)
  from updateAllocationValue_writeCell[OF this snap] show ?thesis
    by (simp add: find_writeCell_other[OF neq])
qed

text \<open>The two writes of a pointer-enter that detects movement, against one snapshot.\<close>

lemma storeOK_two_writes:
  assumes ok: "storeOK w" and neq: "mon \<noteq> mon0"
  shows "storeOK (updateAllocationValue (allocations w) p m mon v
                   (addPainted k (updateAllocationValue (allocations w) p m mon0 v' w)))"
proof -
  let ?w1 = "updateAllocationValue (allocations w) p m mon0 v' w"
  have ok1: "storeOK ?w1"
    by (rule updateAllocationValue_storeOK[OF ok refl])
  have "find (sameCell p m mon) (allocations ?w1) = find (sameCell p m mon) (allocations w)"
    by (rule find_after_write_other[OF ok refl]) (use neq in simp)
  then show ?thesis
    using ok1 by (intro updateAllocationValue_storeOK) simp_all
qed

lemma handleCellMouseEnter_storeOK:
  assumes ok: "storeOK w"
  shows "storeOK (handleCellMouseEnter p m mon w)"
proof -
  have 1: "storeOK (updateAllocationValue (allocations w) p m mon' v (w\<lparr>dragState := d\<rparr>))" for mon' v d
    using ok by (intro updateAllocationValue_storeOK) simp_all
  have 2: "mon \<noteq> mon0 \<Longrightarrow> storeOK (updateAllocationValue (allocations w) p m mon v
              (addPainted k (updateAllocationValue (allocations w) p m mon0 v' (w\<lparr>dragState := d\<rparr>))))"
    for mon0 v v' d k
    using storeOK_two_writes[of "w\<lparr>dragState := d\<rparr>" mon mon0 p m v k v'] ok by simp
  show ?thesis
    using ok 1 2 updateAllocationValue_storeOK[OF ok refl]
    by (simp add: handleCellMouseEnter_def Let_def)
qed

lemma foldl_delete_fields:
  "uuids (foldl (\<lambda>w' a. w'\<lparr>allocations := deleteAllocation (alloc_id a) (allocations w')\<rparr>) w0 xs) = uuids w0"
  "issued (foldl (\<lambda>w' a. w'\<lparr>allocations := deleteAllocation (alloc_id a) (allocations w')\<rparr>) w0 xs) = issued w0"
  "dragState (foldl (\<lambda>w' a. w'\<lparr>allocations := deleteAllocation (alloc_id a) (allocations w')\<rparr>) w0 xs) = dragState w0"
  by (induction xs arbitrary: w0) simp_all

lemma handleRemoveMemberFromProject_storeOK:
  assumes ok: "storeOK w"
  shows "storeOK (handleRemoveMemberFromProject p m w)"
proof -
  have "uuids (handleRemoveMemberFromProject p m w) = uuids w"
    "issued (handleRemoveMemberFromProject p m w) = issued w"
    by (simp_all add: handleRemoveMemberFromProject_def Let_def foldl_delete_fields)
  then show ?thesis
    using ok
    by (simp add: storeOK_def handleRemoveMemberFromProject_allocations distinct_map_filter list_all_iff)
qed

lemma fire_storeOK:
  assumes ok: "storeOK w"
  shows "storeOK (fire w ev)"
proof (cases ev)
  case (MouseDown p m mon)
  then show ?thesis using ok by (simp add: handleCellMouseDown_def)
next
  case (MouseEnter p m mon)
  then show ?thesis using handleCellMouseEnter_storeOK[OF ok] by simp
next
  case (MouseUp p m mon)
  then show ?thesis
    using ok updateAllocationValue_storeOK[OF ok refl]
    by (simp add: handleCellMouseUp_def handleGlobalMouseUp_def Let_def)
next
  case GlobalMouseUp
  then show ?thesis using ok by (simp add: handleGlobalMouseUp_def)
next
  case (DoubleClick p m mon)
  then show ?thesis
    using ok by (simp add: startEditing_def storeOK_def)
next
  case (Change v)
  then show ?thesis using ok by (simp add: storeOK_def)
next
  case Commit
  have "storeOK (w'\<lparr>editingCell := None, editValue := []\<rparr>) = storeOK w'" for w'
    by (rule storeOK_cong) simp_all
  with Commit show ?thesis
    using ok updateAllocationValue_storeOK[OF ok refl]
    by (simp add: saveEditing_def Let_def split: option.splits prod.splits)
next
  case (AddMember p m)
  then show ?thesis using ok by (simp add: handleAddMemberToProject_def storeOK_def)
next
  case (RemoveMember p m)
  then show ?thesis using handleRemoveMemberFromProject_storeOK[OF ok] by simp
qed

lemma run_storeOK: "storeOK w \<Longrightarrow> storeOK (run w evs)"
  unfolding run_def by (induction evs arbitrary: w) (simp_all add: fire_storeOK)

lemma storeOK_empty: "allocations w = [] \<Longrightarrow> inj (uuids w) \<Longrightarrow> storeOK w"
  by (simp add: storeOK_def)

lemma run_append: "run w (xs @ ys) = run (run w xs) ys"
  by (simp add: run_def)

lemma run_Cons: "run w (e # es) = run (fire w e) es"
  by (simp add: run_def)

lemma run_Nil [simp]: "run w [] = w"
  by (simp add: run_def)

section \<open>The example world\<close>

lemma inj_exampleUuids: "inj exampleUuids"
  by (simp add: inj_def exampleUuids_def)

lemma exampleWorld_ok: "storeOK exampleWorld"
  unfolding storeOK_def exampleWorld_def
  apply (simp add: inj_exampleUuids cellOf_def)
  apply (simp add: exampleUuids_def image_iff)
  apply (rule bexI[of _ 1]; simp)
  done

lemma exampleWorld_positive: "allPositive (allocations exampleWorld)"
  using exampleWorld_ok by (simp add: storeOK_def allPositive_def)

lemma storeOK_editor [simp]:
  "storeOK (w\<lparr>editingCell := c\<rparr>) = storeOK w" "storeOK (w\<lparr>editValue := s\<rparr>) = storeOK w"
  by (rule storeOK_cong; simp)+

section \<open>Direct numeric entry: unreadable and negative texts\<close>

text \<open>
  C7. A commit of the editor whose text \<open>parseInt\<close> does not read as an integer
  (\<open>NaN\<close>) changes nothing in the store: the list of records is the same, no identifier
  is drawn, and the only effect is that the editor closes. No branch of the commit
  raises.
\<close>

theorem saveEditing_unparseable:
  assumes "parseInt (editValue w) = None"
  shows "allocations (saveEditing w) = allocations w \<and> issued (saveEditing w) = issued w \<and>
         saveEditing w =
           (case editingCell w of None \<Rightarrow> w | Some c \<Rightarrow> w\<lparr>editingCell := None, editValue := []\<rparr>)"
  using assms by (simp add: saveEditing_def split: option.splits prod.splits)

theorem saveEditing_unparseable_witness:
  "parseInt (editValue (exampleWorld\<lparr>editingCell := Some (''p1'', ''m1'', ''2024-04''), editValue := ''abc''\<rparr>)) = None
   \<and> allocations (saveEditing (exampleWorld\<lparr>editingCell := Some (''p1'', ''m1'', ''2024-04''), editValue := ''abc''\<rparr>))
     = allocations exampleWorld"
proof -
  have h: "parseInt (editValue (exampleWorld\<lparr>editingCell := Some (''p1'', ''m1'', ''2024-04''), editValue := ''abc''\<rparr>)) = None"
    by (simp add: parseInt_def isWhiteSpace_def isRadixDigit_def digitValue_def)
  show ?thesis
    using h saveEditing_unparseable[OF h] by simp
qed

text \<open>
  C10. A commit whose text reads as a negative integer takes the delete branch of
  \<open>updateAllocationValue\<close>: the first record of the cell, if there is one, is deleted by
  id and nothing is added (in a store that satisfies the invariant the cell is empty
  afterwards and every other record is kept as it was). No event of the grid ever
  stores a percentage that is not positive.
\<close>

theorem saveEditing_negative:
  assumes "editingCell w = Some (p, m, mon)" and "parseInt (editValue w) = Some v" and "v < 0"
  shows "allocations (saveEditing w) =
           (case find (sameCell p m mon) (allocations w) of
              None \<Rightarrow> allocations w
            | Some e \<Rightarrow> deleteAllocation (alloc_id e) (allocations w))
         \<and> issued (saveEditing w) = issued w
         \<and> (storeOK w \<longrightarrow>
              allocations (saveEditing w) = filter (\<lambda>a. \<not> sameCell p m mon a) (allocations w) \<and>
              find (sameCell p m mon) (allocations (saveEditing w)) = None)
         \<and> (allPositive (allocations w) \<longrightarrow> (\<forall>evs. allPositive (allocations (run w evs))))"
proof -
  have eq: "allocations (saveEditing w) = allocations (updateAllocationValue (allocations w) p m mon v w)"
    using assms by (simp add: saveEditing_def)
  have a: "allocations (saveEditing w) =
           (case find (sameCell p m mon) (allocations w) of
              None \<Rightarrow> allocations w
            | Some e \<Rightarrow> deleteAllocation (alloc_id e) (allocations w))"
    using assms by (simp add: eq updateAllocationValue_def split: option.splits)
  have b: "issued (saveEditing w) = issued w"
    using assms by (simp add: saveEditing_def updateAllocationValue_issued)
  have c: "allocations (saveEditing w) = filter (\<lambda>a. \<not> sameCell p m mon a) (allocations w) \<and>
           find (sameCell p m mon) (allocations (saveEditing w)) = None" if ok: "storeOK w"
  proof -
    from ok have "distinct (map alloc_id (allocations w))" "distinct (map cellOf (allocations w))"
      by (simp_all add: storeOK_def)
    from updateAllocationValue_writeCell[OF this refl, of p m mon v]
    have w: "allocations (saveEditing w) = writeCell p m mon v (uuids w (issued w)) (allocations w)"
      by (simp add: eq)
    show ?thesis
      using assms(3) find_writeCell_same[of p m mon v "uuids w (issued w)" "allocations w"]
      by (simp add: w) (simp add: writeCell_def)
  qed
  show ?thesis
    using a b c run_positive by blast
qed

theorem saveEditing_negative_witness:
  "editingCell (exampleWorld\<lparr>editingCell := Some (''p1'', ''m1'', ''2024-04''), editValue := ''-20''\<rparr>)
     = Some (''p1'', ''m1'', ''2024-04'')
   \<and> parseInt (editValue (exampleWorld\<lparr>editingCell := Some (''p1'', ''m1'', ''2024-04''), editValue := ''-20''\<rparr>))
     = Some (- 20)
   \<and> (- 20 :: int) < 0
   \<and> storeOK (exampleWorld\<lparr>editingCell := Some (''p1'', ''m1'', ''2024-04''), editValue := ''-20''\<rparr>)
   \<and> allocations (saveEditing (exampleWorld\<lparr>editingCell := Some (''p1'', ''m1'', ''2024-04''), editValue := ''-20''\<rparr>))
     = [\<lparr>alloc_id = ''uu'', projectId = ''p2'', memberId = ''m1'', month = ''2024-04'', percentage = 80\<rparr>]
   \<and> allPositive (allocations (exampleWorld\<lparr>editingCell := Some (''p1'', ''m1'', ''2024-04''), editValue := ''-20''\<rparr>))
   \<and> allPositive (allocations (run (exampleWorld\<lparr>editingCell := Some (''p1'', ''m1'', ''2024-04''), editValue := ''-20''\<rparr>)
        [Commit, MouseDown ''p2'' ''m1'' ''2024-04'', MouseUp ''p2'' ''m1'' ''2024-04'']))"
proof -
  let ?w = "exampleWorld\<lparr>editingCell := Some (''p1'', ''m1'', ''2024-04''), editValue := ''-20''\<rparr>"
  have h1: "editingCell ?w = Some (''p1'', ''m1'', ''2024-04'')" by simp
  have h2: "parseInt (editValue ?w) = Some (- 20)"
    by (simp add: parseInt_def isWhiteSpace_def isRadixDigit_def digitValue_def radixValue_def)
  have h3: "(- 20 :: int) < 0" by simp
  have ok: "storeOK ?w" using exampleWorld_ok by simp
  have pos: "allPositive (allocations ?w)" using exampleWorld_positive by simp
  note T = saveEditing_negative[OF h1 h2 h3]
  have "allocations (saveEditing ?w) = filter (\<lambda>a. \<not> sameCell ''p1'' ''m1'' ''2024-04'' a) (allocations ?w)"
    using T ok by blast
  then have a: "allocations (saveEditing ?w) =
      [\<lparr>alloc_id = ''uu'', projectId = ''p2'', memberId = ''m1'', month = ''2024-04'', percentage = 80\<rparr>]"
    by (simp add: exampleWorld_def sameCell_def)
  have b: "allPositive (allocations (run ?w [Commit, MouseDown ''p2'' ''m1'' ''2024-04'', MouseUp ''p2'' ''m1'' ''2024-04'']))"
    using T pos by blast
  from h1 h2 h3 ok a pos b show ?thesis by blast
qed

section \<open>Gestures\<close>

text \<open>
  The explicit form of a pointer-enter in each situation of the gesture state.
\<close>

lemma cellKey_inj [simp]: "cellKey p m mon = cellKey p m mon' \<longleftrightarrow> mon = mon'"
  by (simp add: cellKey_def)

lemma cellKey_image [simp]: "cellKey p m mon \<in> cellKey p m ` S \<longleftrightarrow> mon \<in> S"
  by auto

lemma addPainted_dragState [simp]:
  "dragState (addPainted k w) = (dragState w)\<lparr>paintedCells := insert k (paintedCells (dragState w))\<rparr>"
  by (simp add: addPainted_def)

lemma addPainted_fields [simp]:
  "uuids (addPainted k w) = uuids w" "issued (addPainted k w) = issued w"
  by (simp_all add: addPainted_def)

lemma enter_ignored:
  assumes "\<not> active (dragState w) \<or> drag_projectId (dragState w) \<noteq> p \<or> drag_memberId (dragState w) \<noteq> m"
  shows "handleCellMouseEnter p m mon w = w"
  using assms by (auto simp: handleCellMouseEnter_def Let_def)

lemma enter_start_cell:
  assumes "\<not> hasMoved (dragState w)" "mon = startMonth (dragState w)"
  shows "handleCellMouseEnter p m mon w = w"
  using assms by (simp add: handleCellMouseEnter_def Let_def)

lemma enter_first_move:
  assumes "active (dragState w)" "drag_projectId (dragState w) = p" "drag_memberId (dragState w) = m"
    and "\<not> hasMoved (dragState w)" "mon \<noteq> startMonth (dragState w)" "paintedCells (dragState w) = {}"
  shows "handleCellMouseEnter p m mon w =
         addPainted (cellKey p m mon)
           (updateAllocationValue (allocations w) p m mon (paintValue (dragState w))
              (addPainted (cellKey p m (startMonth (dragState w)))
                 (updateAllocationValue (allocations w) p m (startMonth (dragState w)) (paintValue (dragState w))
                    (w\<lparr>dragState := (dragState w)\<lparr>hasMoved := True\<rparr>\<rparr>))))"
  using assms by (simp add: handleCellMouseEnter_def Let_def)

lemma enter_painted:
  assumes "hasMoved (dragState w)" "cellKey p m mon \<in> paintedCells (dragState w)"
  shows "handleCellMouseEnter p m mon w = w"
  using assms by (simp add: handleCellMouseEnter_def Let_def)

lemma enter_paint:
  assumes "active (dragState w)" "drag_projectId (dragState w) = p" "drag_memberId (dragState w) = m"
    and "hasMoved (dragState w)" "cellKey p m mon \<notin> paintedCells (dragState w)"
  shows "handleCellMouseEnter p m mon w =
         addPainted (cellKey p m mon)
           (updateAllocationValue (allocations w) p m mon (paintValue (dragState w)) w)"
  using assms by (simp add: handleCellMouseEnter_def Let_def)

text \<open>A write through \<open>updateAllocationValue\<close> in a store that satisfies the invariant.\<close>

lemma write_ok:
  assumes ok: "storeOK w"
    and snap: "find (sameCell p m mon) snap = find (sameCell p m mon) (allocations w)"
  shows "allocations (updateAllocationValue snap p m mon v w) =
           writeCell p m mon v (uuids w (issued w)) (allocations w)"
  using ok by (intro updateAllocationValue_writeCell[OF _ _ snap]) (simp_all add: storeOK_def)

text \<open>Pointer-enter events change no record outside the row of the gesture.\<close>

lemma enter_frame:
  assumes ok: "storeOK w"
  shows "filter (\<lambda>a. \<not> sameRow (drag_projectId (dragState w)) (drag_memberId (dragState w)) a)
           (allocations (handleCellMouseEnter p m mon w))
         = filter (\<lambda>a. \<not> sameRow (drag_projectId (dragState w)) (drag_memberId (dragState w)) a)
           (allocations w)"
proof -
  let ?d = "dragState w"
  consider (ign) "\<not> active ?d \<or> drag_projectId ?d \<noteq> p \<or> drag_memberId ?d \<noteq> m"
    | (start) "\<not> hasMoved ?d" "mon = startMonth ?d"
    | (painted) "hasMoved ?d" "cellKey p m mon \<in> paintedCells ?d"
    | (paint) "active ?d" "drag_projectId ?d = p" "drag_memberId ?d = m" "hasMoved ?d"
        "cellKey p m mon \<notin> paintedCells ?d"
    | (first) "active ?d" "drag_projectId ?d = p" "drag_memberId ?d = m" "\<not> hasMoved ?d"
        "mon \<noteq> startMonth ?d"
    by blast
  then show ?thesis
  proof cases
    case ign then show ?thesis by (simp add: enter_ignored)
  next
    case start then show ?thesis by (simp add: enter_start_cell)
  next
    case painted then show ?thesis by (simp add: enter_painted)
  next
    case paint
    then show ?thesis
      by (simp add: enter_paint write_ok[OF ok refl] filter_writeCell_row)
  next
    case first
    let ?w' = "w\<lparr>dragState := ?d\<lparr>hasMoved := True\<rparr>\<rparr>"
    let ?w1 = "updateAllocationValue (allocations w) p m (startMonth ?d) (paintValue ?d) ?w'"
    have ok': "storeOK ?w'" using ok by simp
    have a1: "allocations ?w1 = writeCell p m (startMonth ?d) (paintValue ?d) (uuids w (issued w)) (allocations w)"
      using write_ok[OF ok', of p m "startMonth ?d" "allocations w"] by simp
    have ok1: "storeOK ?w1"
      using updateAllocationValue_storeOK[OF ok', of p m "startMonth ?d" "allocations w"] by simp
    have fr: "filter (\<lambda>a. \<not> sameRow p m a) (allocations (updateAllocationValue snap p m mon' v w2))
              = filter (\<lambda>a. \<not> sameRow p m a) (allocations w2)"
      if "storeOK w2" "find (sameCell p m mon') snap = find (sameCell p m mon') (allocations w2)"
      for snap mon' v w2
      using write_ok[OF that] by (simp add: filter_writeCell_row)
    have s2: "find (sameCell p m mon) (allocations w) = find (sameCell p m mon) (allocations ?w1)"
      using first by (simp add: a1 find_writeCell_other)
    have unf: "handleCellMouseEnter p m mon w =
        (let w1 = (if cellKey p m (startMonth ?d) \<notin> paintedCells ?d
                   then addPainted (cellKey p m (startMonth ?d)) ?w1 else ?w') in
         if cellKey p m mon \<notin> paintedCells (dragState w1)
         then addPainted (cellKey p m mon)
                (updateAllocationValue (allocations w) p m mon (paintValue ?d) w1)
         else w1)"
      using first by (simp add: handleCellMouseEnter_def Let_def)
    have f1: "filter (\<lambda>a. \<not> sameRow p m a) (allocations ?w1) = filter (\<lambda>a. \<not> sameRow p m a) (allocations w)"
      by (simp add: a1 filter_writeCell_row)
    have f2: "filter (\<lambda>a. \<not> sameRow p m a)
                (allocations (updateAllocationValue (allocations w) p m mon (paintValue ?d) (addPainted k ?w1)))
              = filter (\<lambda>a. \<not> sameRow p m a) (allocations w)" for k
      using fr[of "addPainted k ?w1" mon "allocations w"] ok1 s2 f1 by simp
    have f3: "filter (\<lambda>a. \<not> sameRow p m a)
                (allocations (updateAllocationValue (allocations w) p m mon (paintValue ?d) ?w'))
              = filter (\<lambda>a. \<not> sameRow p m a) (allocations w)"
      using fr[of ?w' mon "allocations w"] ok' by simp
    show ?thesis
      using first(2,3) f1 f2 f3 by (simp add: unf Let_def)
  qed
qed

lemma write_step:
  assumes ok: "storeOK w"
    and snap: "find (sameCell p m mon) snap = find (sameCell p m mon) (allocations w)"
  shows "storeOK (updateAllocationValue snap p m mon v w)"
    and "cellPercentage (allocations (updateAllocationValue snap p m mon v w)) p m mon =
         (if v > 0 then v else 0)"
    and "(p', m', mon') \<noteq> (p, m, mon) \<Longrightarrow>
         find (sameCell p' m' mon') (allocations (updateAllocationValue snap p m mon v w)) =
         find (sameCell p' m' mon') (allocations w)"
  by (simp_all add: updateAllocationValue_storeOK[OF ok snap] write_ok[OF ok snap]
      cellPercentage_writeCell_same find_writeCell_other)

lemma gesture_paint:
  assumes inv: "gestureInv P M m0 PV base S w" and S: "S \<noteq> {}" "mon \<notin> S"
  shows "gestureInv P M m0 PV base (insert mon S) (handleCellMouseEnter P M mon w)"
proof -
  let ?w1 = "updateAllocationValue (allocations w) P M mon PV w"
  from inv have ok: "storeOK w" by (simp add: gestureInv_def)
  note ws = write_step[OF ok refl, where p = P and m = M and mon = mon and v = PV]
  have eq: "handleCellMouseEnter P M mon w = addPainted (cellKey P M mon) ?w1"
    using inv S by (subst enter_paint) (simp_all add: gestureInv_def)
  have others: "cellPercentage (allocations ?w1) P M mon' = cellPercentage (allocations w) P M mon'"
    if "mon' \<in> S" for mon'
  proof -
    from that S have "mon' \<noteq> mon" by blast
    then show ?thesis
      using ws(3)[where p' = P and m' = M and mon' = mon'] by (simp add: cellPercentage_find)
  qed
  show ?thesis
    unfolding eq gestureInv_def
    using inv S ws(1,2) ws(3) others
    by (simp add: gestureInv_def)
qed

lemma gesture_first_move:
  assumes inv: "gestureInv P M m0 PV base {} w" and neq: "mon \<noteq> m0"
  shows "gestureInv P M m0 PV base {mon, m0} (handleCellMouseEnter P M mon w)"
proof -
  let ?w' = "w\<lparr>dragState := (dragState w)\<lparr>hasMoved := True\<rparr>\<rparr>"
  let ?w1 = "updateAllocationValue (allocations w) P M m0 PV ?w'"
  let ?w2 = "addPainted (cellKey P M m0) ?w1"
  let ?w3 = "updateAllocationValue (allocations w) P M mon PV ?w2"
  from inv have ok: "storeOK w" and base: "allocations w = base"
    by (simp_all add: gestureInv_def)
  have ok': "storeOK ?w'" using ok by simp
  have snap1: "find (sameCell P M m0) (allocations w) = find (sameCell P M m0) (allocations ?w')"
    by simp
  note w1 = write_step[OF ok' snap1, where v = PV]
  have ok2: "storeOK ?w2" using w1(1) by simp
  have snap2: "find (sameCell P M mon) (allocations w) = find (sameCell P M mon) (allocations ?w2)"
    using w1(3)[where p' = P and m' = M and mon' = mon] neq by simp
  note w3 = write_step[OF ok2 snap2, where v = PV]
  have eq: "handleCellMouseEnter P M mon w = addPainted (cellKey P M mon) ?w3"
    using inv neq by (subst enter_first_move) (simp_all add: gestureInv_def)
  have at_mon: "cellPercentage (allocations ?w3) P M mon = (if PV > 0 then PV else 0)"
    by (rule w3(2))
  have "find (sameCell P M m0) (allocations ?w3) = find (sameCell P M m0) (allocations ?w2)"
    using w3(3)[where p' = P and m' = M and mon' = m0] neq by simp
  then have at_m0: "cellPercentage (allocations ?w3) P M m0 = (if PV > 0 then PV else 0)"
    using w1(2) by (simp add: cellPercentage_find)
  have frame: "find (sameCell p m mon') (allocations ?w3) = find (sameCell p m mon') base"
    if "\<not> (p = P \<and> m = M \<and> (mon' = mon \<or> mon' = m0))" for p m mon'
  proof -
    from that have n1: "(p, m, mon') \<noteq> (P, M, mon)" and n2: "(p, m, mon') \<noteq> (P, M, m0)" by auto
    show ?thesis
      using w3(3)[OF n1] w1(3)[OF n2] base by simp
  qed
  show ?thesis
    unfolding eq gestureInv_def
    using inv w3(1) at_mon at_m0 frame
    by (simp add: gestureInv_def)
qed

lemma gesture_enter:
  assumes inv: "gestureInv P M m0 PV base S w"
  shows "gestureInv P M m0 PV base (paintStep P M m0 S (p, m, mon)) (handleCellMouseEnter p m mon w)"
proof -
  consider (other) "\<not> (p = P \<and> m = M)"
    | (start) "p = P" "m = M" "S = {}" "mon = m0"
    | (first) "p = P" "m = M" "S = {}" "mon \<noteq> m0"
    | (painted) "p = P" "m = M" "S \<noteq> {}" "mon \<in> S"
    | (paint) "p = P" "m = M" "S \<noteq> {}" "mon \<notin> S"
    by blast
  then show ?thesis
  proof cases
    case other
    then have "handleCellMouseEnter p m mon w = w"
      using inv by (intro enter_ignored) (auto simp: gestureInv_def)
    with other inv show ?thesis by (auto simp: paintStep_def)
  next
    case start
    then have "handleCellMouseEnter p m mon w = w"
      using inv by (intro enter_start_cell) (auto simp: gestureInv_def)
    with start inv show ?thesis by (simp add: paintStep_def)
  next
    case first
    then show ?thesis
      using gesture_first_move[of P M m0 PV base w mon] inv
      by (simp add: paintStep_def insert_commute)
  next
    case painted
    then have "handleCellMouseEnter p m mon w = w"
      using inv by (intro enter_painted) (auto simp: gestureInv_def)
    moreover have "insert mon (insert m0 S) = S"
      using painted inv by (auto simp: gestureInv_def)
    ultimately show ?thesis using painted inv by (simp add: paintStep_def)
  next
    case paint
    moreover have "insert mon (insert m0 S) = insert mon S"
      using paint inv by (auto simp: gestureInv_def)
    ultimately show ?thesis
      using gesture_paint[of P M m0 PV base S w mon] inv
      by (simp add: paintStep_def)
  qed
qed

lemma gesture_enters:
  assumes "gestureInv P M m0 PV base S w"
  shows "gestureInv P M m0 PV base (foldl (paintStep P M m0) S cs) (run w (enters cs))"
  using assms
proof (induction cs arbitrary: S w)
  case Nil
  then show ?case by (simp add: enters_def)
next
  case (Cons c cs)
  obtain p m mon where c: "c = (p, m, mon)" by (cases c)
  from Cons.prems have "gestureInv P M m0 PV base (paintStep P M m0 S c) (fire w (MouseEnter p m mon))"
    unfolding c by (simp add: gesture_enter)
  from Cons.IH[OF this] show ?case
    by (simp add: enters_def c run_Cons)
qed

lemma foldl_paintStep:
  "foldl (paintStep P M m0) S cs =
     (if S \<noteq> {} \<or> (\<exists>mon. (P, M, mon) \<in> set cs \<and> mon \<noteq> m0)
      then insert m0 (S \<union> {mon. (P, M, mon) \<in> set cs})
      else {})" if "S \<noteq> {} \<longrightarrow> m0 \<in> S"
  using that
proof (induction cs arbitrary: S)
  case Nil
  then show ?case by auto
next
  case (Cons c cs)
  obtain p m mon where c: "c = (p, m, mon)" by (cases c)
  have "paintStep P M m0 S c \<noteq> {} \<longrightarrow> m0 \<in> paintStep P M m0 S c"
    using Cons.prems by (auto simp: paintStep_def c)
  from Cons.IH[OF this] show ?case
    using Cons.prems by (auto simp: paintStep_def c split: if_splits)
qed

lemma gesture_start:
  assumes "storeOK w"
  shows "gestureInv P M m0 (if cellPercentage (allocations w) P M m0 = 0 then 100 else 0)
           (allocations w) {} (fire w (MouseDown P M m0))"
  using assms by (simp add: gestureInv_def handleCellMouseDown_def)

lemma enters_no_move:
  assumes "\<not> hasMoved (dragState w)"
    and "\<forall>c\<in>set cs. \<not> (fst c = drag_projectId (dragState w) \<and> fst (snd c) = drag_memberId (dragState w)
            \<and> snd (snd c) \<noteq> startMonth (dragState w))"
  shows "run w (enters cs) = w"
  using assms
proof (induction cs)
  case Nil
  then show ?case by (simp add: enters_def)
next
  case (Cons c cs)
  obtain p m mon where c: "c = (p, m, mon)" by (cases c)
  have "handleCellMouseEnter p m mon w = w"
  proof (cases "p = drag_projectId (dragState w) \<and> m = drag_memberId (dragState w)")
    case True
    with Cons.prems c have "mon = startMonth (dragState w)" by auto
    with Cons.prems show ?thesis by (simp add: enter_start_cell)
  next
    case False
    then show ?thesis by (intro enter_ignored) auto
  qed
  with Cons show ?case by (simp add: enters_def c run_Cons)
qed

lemma release_after_move:
  assumes "hasMoved (dragState w)"
  shows "allocations (fire w (MouseUp q n mu)) = allocations w"
  using assms by (simp add: handleCellMouseUp_def handleGlobalMouseUp_def)

text \<open>
  C1. A gesture is a pointer-down on the cell \<open>(P, M, m0)\<close>, pointer-enters on the
  cells \<open>cs\<close> (of any rows, in any order, with repetitions) and a release on some cell.
  The paint value is fixed by the pointer-down from the value \<open>V\<close> the start cell shows
  (100 if \<open>V = 0\<close>, else 0) and stays so. If some entered cell of the row is not the
  start cell, then after the release every entered cell of the row, and the start cell,
  shows the paint value; entering a cell that was entered before (or the start cell)
  once movement has been detected leaves the store as it is; and when no other cell of
  the row is entered, the enters write nothing and a release on the start cell gives
  exactly a click-cycle.
\<close>

theorem drag_paint:
  assumes ok: "storeOK w"
    and V: "V = cellPercentage (allocations w) P M m0"
    and PV: "PV = (if V = 0 then 100 else 0)"
  shows "paintValue (dragState (fire w (MouseDown P M m0))) = PV
         \<and> paintValue (dragState (run w (MouseDown P M m0 # enters cs))) = PV
         \<and> ((\<exists>mon. (P, M, mon) \<in> set cs \<and> mon \<noteq> m0) \<longrightarrow>
              (\<forall>mon. mon = m0 \<or> (P, M, mon) \<in> set cs \<longrightarrow>
                 cellPercentage (allocations (run w (MouseDown P M m0 # enters cs @ [MouseUp q n mu]))) P M mon = PV))
         \<and> ((\<exists>mon'. (P, M, mon') \<in> set cs \<and> mon' \<noteq> m0) \<and> (mon = m0 \<or> (P, M, mon) \<in> set cs) \<longrightarrow>
              allocations (run w (MouseDown P M m0 # enters (cs @ [(P, M, mon)])))
              = allocations (run w (MouseDown P M m0 # enters cs)))
         \<and> (\<not> (\<exists>mon. (P, M, mon) \<in> set cs \<and> mon \<noteq> m0) \<longrightarrow>
              allocations (run w (MouseDown P M m0 # enters cs)) = allocations w \<and>
              run w (MouseDown P M m0 # enters cs @ [MouseUp P M m0])
              = run w [MouseDown P M m0, MouseUp P M m0])"
proof -
  let ?w0 = "fire w (MouseDown P M m0)"
  let ?w1 = "run ?w0 (enters cs)"
  let ?S = "foldl (paintStep P M m0) {} cs"
  let ?moved = "\<exists>mon. (P, M, mon) \<in> set cs \<and> mon \<noteq> m0"
  have inv0: "gestureInv P M m0 PV (allocations w) {} ?w0"
    using gesture_start[OF ok, of P M m0] by (simp add: V PV)
  have inv1: "gestureInv P M m0 PV (allocations w) ?S ?w1"
    by (rule gesture_enters[OF inv0])
  have S: "?S = (if ?moved then insert m0 {mon. (P, M, mon) \<in> set cs} else {})"
    by (subst foldl_paintStep) simp_all
  have pv: "(if PV > 0 then PV else 0) = PV" by (simp add: PV)
  have a: "paintValue (dragState ?w0) = PV" using inv0 by (simp add: gestureInv_def)
  have b: "paintValue (dragState ?w1) = PV" using inv1 by (simp add: gestureInv_def)
  have c: "cellPercentage (allocations (run w (MouseDown P M m0 # enters cs @ [MouseUp q n mu]))) P M mon' = PV"
    if "?moved" "mon' = m0 \<or> (P, M, mon') \<in> set cs" for mon'
  proof -
    from that S have "mon' \<in> ?S" and "?S \<noteq> {}" by auto
    with inv1 have "hasMoved (dragState ?w1)" "cellPercentage (allocations ?w1) P M mon' = PV"
      by (simp_all add: gestureInv_def pv)
    then show ?thesis
      by (simp add: run_Cons run_append release_after_move del: fire.simps)
  qed
  have d: "allocations (run w (MouseDown P M m0 # enters (cs @ [(P, M, mon)])))
           = allocations (run w (MouseDown P M m0 # enters cs))"
    if "?moved" "mon = m0 \<or> (P, M, mon) \<in> set cs"
  proof -
    from that S have "mon \<in> ?S" and "?S \<noteq> {}" by auto
    with inv1 have "hasMoved (dragState ?w1)" "cellKey P M mon \<in> paintedCells (dragState ?w1)"
      by (simp_all add: gestureInv_def)
    then have "handleCellMouseEnter P M mon ?w1 = ?w1" by (rule enter_painted)
    then have "fire ?w1 (MouseEnter P M mon) = ?w1" by simp
    then show ?thesis
      by (simp add: run_Cons enters_def run_append del: fire.simps)
  qed
  have e: "allocations (run w (MouseDown P M m0 # enters cs)) = allocations w \<and>
           run w (MouseDown P M m0 # enters cs @ [MouseUp P M m0]) = run w [MouseDown P M m0, MouseUp P M m0]"
    if "\<not> ?moved"
  proof -
    have "?w1 = ?w0"
      using that by (intro enters_no_move) (auto simp: handleCellMouseDown_def)
    moreover have "allocations ?w0 = allocations w" by (simp add: handleCellMouseDown_def)
    ultimately show ?thesis
      by (simp add: run_Cons run_append del: fire.simps)
  qed
  show ?thesis
    using a b c d e by (simp add: run_Cons del: fire.simps)
qed

theorem drag_paint_witness:
  "storeOK exampleWorld
   \<and> cellPercentage (allocations exampleWorld) ''p1'' ''m1'' ''2024-05'' = 0
   \<and> cellPercentage (allocations (run exampleWorld
        (MouseDown ''p1'' ''m1'' ''2024-05'' #
         enters [(''p1'', ''m1'', ''2024-06''), (''p2'', ''m1'', ''2024-04''), (''p1'', ''m1'', ''2024-04'')] @
         [MouseUp ''p1'' ''m1'' ''2024-04'']))) ''p1'' ''m1'' ''2024-05'' = 100
   \<and> cellPercentage (allocations (run exampleWorld
        (MouseDown ''p1'' ''m1'' ''2024-05'' #
         enters [(''p1'', ''m1'', ''2024-06''), (''p2'', ''m1'', ''2024-04''), (''p1'', ''m1'', ''2024-04'')] @
         [MouseUp ''p1'' ''m1'' ''2024-04'']))) ''p1'' ''m1'' ''2024-06'' = 100
   \<and> allocations (run exampleWorld
        (MouseDown ''p1'' ''m1'' ''2024-05'' #
         enters ([(''p1'', ''m1'', ''2024-06''), (''p2'', ''m1'', ''2024-04''), (''p1'', ''m1'', ''2024-04'')]
                 @ [(''p1'', ''m1'', ''2024-06'')])))
     = allocations (run exampleWorld
        (MouseDown ''p1'' ''m1'' ''2024-05'' #
         enters [(''p1'', ''m1'', ''2024-06''), (''p2'', ''m1'', ''2024-04''), (''p1'', ''m1'', ''2024-04'')]))
   \<and> allocations (run exampleWorld
        (MouseDown ''p1'' ''m1'' ''2024-05'' # enters [(''p2'', ''m1'', ''2024-04''), (''p1'', ''m1'', ''2024-05'')]))
     = allocations exampleWorld
   \<and> run exampleWorld
        (MouseDown ''p1'' ''m1'' ''2024-05'' # enters [(''p2'', ''m1'', ''2024-04''), (''p1'', ''m1'', ''2024-05'')]
         @ [MouseUp ''p1'' ''m1'' ''2024-05''])
     = run exampleWorld [MouseDown ''p1'' ''m1'' ''2024-05'', MouseUp ''p1'' ''m1'' ''2024-05'']"
proof -
  let ?cs = "[(''p1'', ''m1'', ''2024-06''), (''p2'', ''m1'', ''2024-04''), (''p1'', ''m1'', ''2024-04'')]"
  let ?cs' = "[(''p2'', ''m1'', ''2024-04''), (''p1'', ''m1'', ''2024-05'')]"
  have V0: "cellPercentage (allocations exampleWorld) ''p1'' ''m1'' ''2024-05'' = 0"
    by (simp add: exampleWorld_def cellPercentage_def sameCell_def)
  have moved: "\<exists>mon. (''p1'', ''m1'', mon) \<in> set ?cs \<and> mon \<noteq> ''2024-05''"
    by (rule exI[of _ "''2024-06''"]) simp
  have still: "\<not> (\<exists>mon. (''p1'', ''m1'', mon) \<in> set ?cs' \<and> mon \<noteq> ''2024-05'')"
    by simp
  note T = drag_paint[OF exampleWorld_ok refl refl, where P = "''p1''" and M = "''m1''"
      and ?m0.0 = "''2024-05''" and cs = ?cs and q = "''p1''" and n = "''m1''" and mu = "''2024-04''"
      and mon = "''2024-06''"]
  note T' = drag_paint[OF exampleWorld_ok refl refl, where P = "''p1''" and M = "''m1''"
      and ?m0.0 = "''2024-05''" and cs = ?cs']
  from T moved have a:
    "\<forall>mon. mon = ''2024-05'' \<or> (''p1'', ''m1'', mon) \<in> set ?cs \<longrightarrow>
       cellPercentage (allocations (run exampleWorld
         (MouseDown ''p1'' ''m1'' ''2024-05'' # enters ?cs @ [MouseUp ''p1'' ''m1'' ''2024-04''])))
         ''p1'' ''m1'' mon = 100"
    unfolding V0 by simp
  have "(''p1'', ''m1'', ''2024-06'') \<in> set ?cs" by simp
  with T moved have b:
    "allocations (run exampleWorld (MouseDown ''p1'' ''m1'' ''2024-05'' # enters (?cs @ [(''p1'', ''m1'', ''2024-06'')])))
     = allocations (run exampleWorld (MouseDown ''p1'' ''m1'' ''2024-05'' # enters ?cs))"
    by blast
  from T' still have c:
    "allocations (run exampleWorld (MouseDown ''p1'' ''m1'' ''2024-05'' # enters ?cs')) = allocations exampleWorld"
    "run exampleWorld (MouseDown ''p1'' ''m1'' ''2024-05'' # enters ?cs' @ [MouseUp ''p1'' ''m1'' ''2024-05''])
     = run exampleWorld [MouseDown ''p1'' ''m1'' ''2024-05'', MouseUp ''p1'' ''m1'' ''2024-05'']"
    by blast+
  from a have a1: "cellPercentage (allocations (run exampleWorld
         (MouseDown ''p1'' ''m1'' ''2024-05'' # enters ?cs @ [MouseUp ''p1'' ''m1'' ''2024-04''])))
         ''p1'' ''m1'' ''2024-05'' = 100"
    and a2: "cellPercentage (allocations (run exampleWorld
         (MouseDown ''p1'' ''m1'' ''2024-05'' # enters ?cs @ [MouseUp ''p1'' ''m1'' ''2024-04''])))
         ''p1'' ''m1'' ''2024-06'' = 100"
    by simp_all
  show ?thesis
    using exampleWorld_ok V0 a1 a2 b c by blast
qed

section \<open>Click-cycle\<close>

lemma click_write:
  "allocations (run w [MouseDown p m mon, MouseUp p m mon]) =
   allocations (updateAllocationValue (allocations w) p m mon
     (let v = cellPercentage (allocations w) p m mon in if v = 0 then 100 else if v = 100 then 50 else 0) w)"
  by (simp add: run_def handleCellMouseDown_def handleCellMouseUp_def handleGlobalMouseUp_def
      endGesture_def updateAllocationValue_def randomUUID_def Let_def split: option.splits)

lemma click_storeOK: "storeOK w \<Longrightarrow> storeOK (run w [MouseDown p m mon, MouseUp p m mon])"
  by (rule run_storeOK)

lemma click_value:
  assumes ok: "storeOK w"
  shows "cellPercentage (allocations (run w [MouseDown p m mon, MouseUp p m mon])) p m mon =
         (let v = cellPercentage (allocations w) p m mon in if v = 0 then 100 else if v = 100 then 50 else 0)"
  unfolding click_write
  by (simp add: write_step(2)[OF ok refl] Let_def)

text \<open>
  C2. A click-cycle is a pointer-down and a pointer-up on one cell with no event in
  between. The value the cell shows afterwards depends only on the value \<open>v\<close> it showed
  before: 100 if \<open>v = 0\<close>, 50 if \<open>v = 100\<close>, and 0 for every other \<open>v\<close>. Hence \<open>k\<close>
  click-cycles on an empty cell leave it at 0, 100 or 50 as \<open>k mod 3\<close> is 0, 1 or 2.
\<close>

theorem click_cycle:
  assumes ok: "storeOK w"
  shows "cellPercentage (allocations (run w [MouseDown p m mon, MouseUp p m mon])) p m mon =
           (let v = cellPercentage (allocations w) p m mon
            in if v = 0 then 100 else if v = 100 then 50 else 0)
         \<and> (cellPercentage (allocations w) p m mon = 0 \<longrightarrow>
              (\<forall>k. cellPercentage (allocations (run w (clickCycles k p m mon))) p m mon =
                     (if k mod 3 = 0 then 0 else if k mod 3 = 1 then 100 else 50)))"
proof -
  have seq: "storeOK (run w (clickCycles k p m mon)) \<and>
             cellPercentage (allocations (run w (clickCycles k p m mon))) p m mon =
               (if k mod 3 = 0 then 0 else if k mod 3 = 1 then 100 else 50)"
    if z: "cellPercentage (allocations w) p m mon = 0" for k
  proof (induction k)
    case 0
    then show ?case using ok z by simp
  next
    case (Suc k)
    let ?w = "run w (clickCycles k p m mon)"
    from Suc have ok': "storeOK ?w" by simp
    have "k mod 3 = 0 \<or> k mod 3 = 1 \<or> k mod 3 = 2" by arith
    then show ?case
      using Suc click_value[OF ok', of p m mon] click_storeOK[OF ok', of p m mon]
      by (auto simp: run_append mod_Suc Let_def)
  qed
  show ?thesis
    using click_value[OF ok] seq by blast
qed

theorem click_cycle_witness:
  "storeOK exampleWorld
   \<and> cellPercentage (allocations exampleWorld) ''p1'' ''m1'' ''2024-04'' = 100
   \<and> cellPercentage (allocations (run exampleWorld
        [MouseDown ''p1'' ''m1'' ''2024-04'', MouseUp ''p1'' ''m1'' ''2024-04''])) ''p1'' ''m1'' ''2024-04'' = 50
   \<and> cellPercentage (allocations exampleWorld) ''p1'' ''m1'' ''2024-05'' = 0
   \<and> cellPercentage (allocations (run exampleWorld (clickCycles 4 ''p1'' ''m1'' ''2024-05''))) ''p1'' ''m1'' ''2024-05'' = 100"
proof -
  have v1: "cellPercentage (allocations exampleWorld) ''p1'' ''m1'' ''2024-04'' = 100"
    by (simp add: exampleWorld_def cellPercentage_def sameCell_def)
  have v2: "cellPercentage (allocations exampleWorld) ''p1'' ''m1'' ''2024-05'' = 0"
    by (simp add: exampleWorld_def cellPercentage_def sameCell_def)
  have a: "cellPercentage (allocations (run exampleWorld
        [MouseDown ''p1'' ''m1'' ''2024-04'', MouseUp ''p1'' ''m1'' ''2024-04''])) ''p1'' ''m1'' ''2024-04'' = 50"
    using click_cycle[OF exampleWorld_ok, of "''p1''" "''m1''" "''2024-04''"] by (simp add: v1)
  have "\<forall>k. cellPercentage (allocations (run exampleWorld (clickCycles k ''p1'' ''m1'' ''2024-05''))) ''p1'' ''m1'' ''2024-05'' =
                     (if k mod 3 = 0 then 0 else if k mod 3 = 1 then 100 else 50)"
    using click_cycle[OF exampleWorld_ok, of "''p1''" "''m1''" "''2024-05''"] v2 by blast
  then have b: "cellPercentage (allocations (run exampleWorld (clickCycles 4 ''p1'' ''m1'' ''2024-05''))) ''p1'' ''m1'' ''2024-05'' = 100"
    by simp
  show ?thesis using exampleWorld_ok v1 v2 a b by simp
qed

section \<open>Zero means absent\<close>

lemma write_zero:
  "v \<le> 0 \<Longrightarrow> allocations (updateAllocationValue (allocations w) p m mon v w) =
     deleteExisting p m mon (allocations w)"
  by (simp add: updateAllocationValue_def deleteExisting_def getAllocation_def split: option.splits)

lemma applyWrites_storeOK: "storeOK w \<Longrightarrow> storeOK (applyWrites w ws)"
  by (induction w ws rule: applyWrites.induct) (simp_all add: updateAllocationValue_storeOK)

lemma applyWrites_other:
  assumes "storeOK w" "\<forall>x\<in>set ws. fst x \<noteq> (p, m, mon)"
  shows "getAllocation (allocations (applyWrites w ws)) p m mon = getAllocation (allocations w) p m mon"
  using assms
proof (induction w ws rule: applyWrites.induct)
  case (1 w)
  then show ?case by simp
next
  case (2 w p' m' mon' v ws)
  let ?w = "updateAllocationValue (allocations w) p' m' mon' v w"
  have ok: "storeOK ?w" by (rule updateAllocationValue_storeOK[OF "2.prems"(1) refl])
  have "getAllocation (allocations ?w) p m mon = getAllocation (allocations w) p m mon"
    unfolding getAllocation_def
    using "2.prems"(2) by (intro write_step(3)[OF "2.prems"(1) refl]) auto
  with "2.IH"[OF ok] "2.prems"(2) show ?case by simp
qed

lemma applyWrites_append: "applyWrites w (xs @ ys) = applyWrites (applyWrites w xs) ys"
  by (induction w xs rule: applyWrites.induct) simp_all

text \<open>
  C3. Writing 0 to a cell deletes the cell's record when there is one and does nothing
  otherwise, and draws no identifier; the three edit paths (direct entry of a text that
  reads as 0, a click-cycle on a cell that shows neither 0 nor 100, a pointer-enter that
  paints 0) are such writes. In a store that satisfies the invariant the lookup of the
  cell then finds nothing, and it still finds nothing after any later writes to other
  cells. No sequence of events leaves a record with percentage 0 in the store.
\<close>

theorem zero_is_absent:
  shows "allocations (updateAllocationValue (allocations w) p m mon 0 w) = deleteExisting p m mon (allocations w)
         \<and> issued (updateAllocationValue (allocations w) p m mon 0 w) = issued w
         \<and> (editingCell w = Some (p, m, mon) \<and> parseInt (editValue w) = Some 0 \<longrightarrow>
              allocations (fire w Commit) = deleteExisting p m mon (allocations w))
         \<and> (cellPercentage (allocations w) p m mon \<noteq> 0 \<and> cellPercentage (allocations w) p m mon \<noteq> 100 \<longrightarrow>
              allocations (run w [MouseDown p m mon, MouseUp p m mon]) = deleteExisting p m mon (allocations w))
         \<and> (active (dragState w) \<and> drag_projectId (dragState w) = p \<and> drag_memberId (dragState w) = m \<and>
            hasMoved (dragState w) \<and> paintValue (dragState w) = 0 \<and>
            cellKey p m mon \<notin> paintedCells (dragState w) \<longrightarrow>
              allocations (fire w (MouseEnter p m mon)) = deleteExisting p m mon (allocations w))
         \<and> (storeOK w \<longrightarrow>
              getAllocation (deleteExisting p m mon (allocations w)) p m mon = None \<and>
              (\<forall>ws1 ws2. (\<forall>x\<in>set ws2. fst x \<noteq> (p, m, mon)) \<longrightarrow>
                 getAllocation (allocations (applyWrites w (ws1 @ [((p, m, mon), 0)] @ ws2))) p m mon = None))
         \<and> (allPositive (allocations w) \<longrightarrow>
              (\<forall>evs. list_all (\<lambda>a. percentage a \<noteq> 0) (allocations (run w evs))))"
proof -
  have a: "allocations (updateAllocationValue (allocations w) p m mon 0 w) = deleteExisting p m mon (allocations w)"
    by (simp add: write_zero)
  have b: "issued (updateAllocationValue (allocations w) p m mon 0 w) = issued w"
    by (simp add: updateAllocationValue_issued)
  have c: "allocations (fire w Commit) = deleteExisting p m mon (allocations w)"
    if "editingCell w = Some (p, m, mon)" "parseInt (editValue w) = Some 0"
    using that by (simp add: saveEditing_def write_zero)
  have d: "allocations (run w [MouseDown p m mon, MouseUp p m mon]) = deleteExisting p m mon (allocations w)"
    if "cellPercentage (allocations w) p m mon \<noteq> 0" "cellPercentage (allocations w) p m mon \<noteq> 100"
    using that by (simp add: click_write write_zero)
  have e: "allocations (fire w (MouseEnter p m mon)) = deleteExisting p m mon (allocations w)"
    if "active (dragState w)" "drag_projectId (dragState w) = p" "drag_memberId (dragState w) = m"
       "hasMoved (dragState w)" "paintValue (dragState w) = 0" "cellKey p m mon \<notin> paintedCells (dragState w)"
    using that by (simp add: enter_paint write_zero)
  have f: "getAllocation (allocations (applyWrites w0 [((p, m, mon), 0)])) p m mon = None" if "storeOK w0" for w0
    using write_step(2)[OF that refl, of p m mon 0]
          write_ok[OF that refl, of p m mon 0]
    by (simp add: getAllocation_def find_writeCell_same)
  have g: "getAllocation (deleteExisting p m mon (allocations w)) p m mon = None" if "storeOK w"
    using f[OF that] by (simp add: write_zero)
  have h: "getAllocation (allocations (applyWrites w (ws1 @ [((p, m, mon), 0)] @ ws2))) p m mon = None"
    if ok: "storeOK w" and others: "\<forall>x\<in>set ws2. fst x \<noteq> (p, m, mon)" for ws1 ws2
  proof -
    let ?w1 = "applyWrites w ws1"
    have ok1: "storeOK ?w1" by (rule applyWrites_storeOK[OF ok])
    have ok2: "storeOK (applyWrites ?w1 [((p, m, mon), 0)])" by (rule applyWrites_storeOK[OF ok1])
    show ?thesis
      using applyWrites_other[OF ok2 others] f[OF ok1]
      by (simp add: applyWrites_append)
  qed
  have i: "list_all (\<lambda>a. percentage a \<noteq> 0) (allocations (run w evs))" if "allPositive (allocations w)" for evs
    using run_positive[OF that, of evs] by (auto simp: allPositive_def list_all_iff)
  show ?thesis
    using a b c d e g h i by (simp del: fire.simps)
qed

lemma deleteExisting_example:
  "deleteExisting ''p2'' ''m1'' ''2024-04'' (allocations exampleWorld) =
   [\<lparr>alloc_id = ''u'', projectId = ''p1'', memberId = ''m1'', month = ''2024-04'', percentage = 100\<rparr>]"
  by (simp add: deleteExisting_def getAllocation_def exampleWorld_def sameCell_def deleteAllocation_def)

theorem zero_is_absent_witness:
  "editingCell editingWorld = Some (''p2'', ''m1'', ''2024-04'')
   \<and> parseInt (editValue editingWorld) = Some 0
   \<and> allocations (fire editingWorld Commit) =
       [\<lparr>alloc_id = ''u'', projectId = ''p1'', memberId = ''m1'', month = ''2024-04'', percentage = 100\<rparr>]
   \<and> cellPercentage (allocations editingWorld) ''p2'' ''m1'' ''2024-04'' = 80
   \<and> allocations (run editingWorld [MouseDown ''p2'' ''m1'' ''2024-04'', MouseUp ''p2'' ''m1'' ''2024-04'']) =
       [\<lparr>alloc_id = ''u'', projectId = ''p1'', memberId = ''m1'', month = ''2024-04'', percentage = 100\<rparr>]
   \<and> allocations (fire draggingWorld (MouseEnter ''p2'' ''m1'' ''2024-04'')) =
       [\<lparr>alloc_id = ''u'', projectId = ''p1'', memberId = ''m1'', month = ''2024-04'', percentage = 100\<rparr>]
   \<and> storeOK editingWorld
   \<and> getAllocation (allocations (applyWrites editingWorld
        ([((''p1'', ''m1'', ''2024-05''), 100)] @ [((''p2'', ''m1'', ''2024-04''), 0)] @ [((''p1'', ''m1'', ''2024-04''), 50)])))
        ''p2'' ''m1'' ''2024-04'' = None
   \<and> allPositive (allocations editingWorld)
   \<and> list_all (\<lambda>a. percentage a \<noteq> 0) (allocations (run editingWorld [Commit]))"
proof -
  note T = zero_is_absent[of editingWorld "''p2''" "''m1''" "''2024-04''"]
  note D = zero_is_absent[of draggingWorld "''p2''" "''m1''" "''2024-04''"]
  have al: "allocations editingWorld = allocations exampleWorld" "allocations draggingWorld = allocations exampleWorld"
    by (simp_all add: editingWorld_def draggingWorld_def)
  have h1: "editingCell editingWorld = Some (''p2'', ''m1'', ''2024-04'')"
    by (simp add: editingWorld_def)
  have h2: "parseInt (editValue editingWorld) = Some 0"
    by (simp add: editingWorld_def parseInt_def isWhiteSpace_def isRadixDigit_def digitValue_def radixValue_def)
  have h3: "cellPercentage (allocations editingWorld) ''p2'' ''m1'' ''2024-04'' = 80"
    by (simp add: al exampleWorld_def cellPercentage_def sameCell_def)
  have h4: "active (dragState draggingWorld) \<and> drag_projectId (dragState draggingWorld) = ''p2'' \<and>
            drag_memberId (dragState draggingWorld) = ''m1'' \<and> hasMoved (dragState draggingWorld) \<and>
            paintValue (dragState draggingWorld) = 0 \<and>
            cellKey ''p2'' ''m1'' ''2024-04'' \<notin> paintedCells (dragState draggingWorld)"
    by (simp add: draggingWorld_def)
  have h5: "storeOK editingWorld"
    using exampleWorld_ok by (simp add: editingWorld_def)
  have h6: "allPositive (allocations editingWorld)"
    using exampleWorld_positive by (simp add: al)
  have c1: "allocations (fire editingWorld Commit) = deleteExisting ''p2'' ''m1'' ''2024-04'' (allocations editingWorld)"
    using T h1 h2 by blast
  have c2: "allocations (run editingWorld [MouseDown ''p2'' ''m1'' ''2024-04'', MouseUp ''p2'' ''m1'' ''2024-04''])
            = deleteExisting ''p2'' ''m1'' ''2024-04'' (allocations editingWorld)"
    using T h3 by simp
  have c3: "allocations (fire draggingWorld (MouseEnter ''p2'' ''m1'' ''2024-04''))
            = deleteExisting ''p2'' ''m1'' ''2024-04'' (allocations draggingWorld)"
    using D h4 by blast
  have "\<forall>ws1 ws2. (\<forall>x\<in>set ws2. fst x \<noteq> (''p2'', ''m1'', ''2024-04'')) \<longrightarrow>
          getAllocation (allocations (applyWrites editingWorld (ws1 @ [((''p2'', ''m1'', ''2024-04''), 0)] @ ws2)))
            ''p2'' ''m1'' ''2024-04'' = None"
    using T h5 by blast
  then have c4: "getAllocation (allocations (applyWrites editingWorld
        ([((''p1'', ''m1'', ''2024-05''), 100)] @ [((''p2'', ''m1'', ''2024-04''), 0)] @ [((''p1'', ''m1'', ''2024-04''), 50)])))
        ''p2'' ''m1'' ''2024-04'' = None"
    by (rule allE[of _ "[((''p1'', ''m1'', ''2024-05''), 100)]"], elim allE[of _ "[((''p1'', ''m1'', ''2024-04''), 50)]"]) simp
  have c5: "list_all (\<lambda>a. percentage a \<noteq> 0) (allocations (run editingWorld [Commit]))"
    using T h6 by blast
  show ?thesis
    using h1 h2 h3 h5 h6 c1 c2 c3 c4 c5
    by (simp add: al deleteExisting_example del: fire.simps)
qed

section \<open>Removing a member from a project\<close>

text \<open>
  C6. In a store whose records have pairwise distinct ids (every id is drawn from
  \<open>crypto.randomUUID()\<close>, and the invariant is kept by every event), removing member
  \<open>m\<close> from project \<open>p\<close> leaves exactly the records that are not of the pair
  \<open>(p, m)\<close>, unchanged and in their order: no record of the pair remains, in any month,
  and the records of the member on other projects and of the project with other members
  are untouched.
\<close>

theorem remove_member_exact:
  assumes "distinct (map alloc_id (allocations w))"
  shows "allocations (handleRemoveMemberFromProject p m w) =
           filter (\<lambda>a. \<not> (projectId a = p \<and> memberId a = m)) (allocations w)
         \<and> (\<forall>a\<in>set (allocations (handleRemoveMemberFromProject p m w)). \<not> (projectId a = p \<and> memberId a = m))
         \<and> (\<forall>a\<in>set (allocations w). \<not> (projectId a = p \<and> memberId a = m) \<longrightarrow>
               a \<in> set (allocations (handleRemoveMemberFromProject p m w)))"
proof -
  have "alloc_id a \<notin> alloc_id ` {b \<in> set (allocations w). projectId b = p \<and> memberId b = m}
        \<longleftrightarrow> \<not> (projectId a = p \<and> memberId a = m)" if "a \<in> set (allocations w)" for a
    using that assms by (auto simp: distinct_map inj_on_def)
  then have "allocations (handleRemoveMemberFromProject p m w) =
           filter (\<lambda>a. \<not> (projectId a = p \<and> memberId a = m)) (allocations w)"
    unfolding handleRemoveMemberFromProject_allocations by (intro filter_cong refl)
  then show ?thesis by simp
qed

theorem remove_member_exact_witness:
  "distinct (map alloc_id (allocations exampleWorld))
   \<and> allocations (handleRemoveMemberFromProject ''p1'' ''m1'' exampleWorld) =
       [\<lparr>alloc_id = ''uu'', projectId = ''p2'', memberId = ''m1'', month = ''2024-04'', percentage = 80\<rparr>]"
proof -
  have d: "distinct (map alloc_id (allocations exampleWorld))"
    using exampleWorld_ok by (simp add: storeOK_def)
  show ?thesis
    using d remove_member_exact[OF d, of "''p1''" "''m1''"]
    by (simp add: exampleWorld_def)
qed

section \<open>The release of a gesture on another row\<close>

lemma gesture_frame:
  assumes "gestureInv P M m0 PV base S w"
  shows "filter (\<lambda>a. \<not> sameRow P M a) (allocations (run w (enters cs)))
         = filter (\<lambda>a. \<not> sameRow P M a) (allocations w)"
  using assms
proof (induction cs arbitrary: S w)
  case Nil
  then show ?case by (simp add: enters_def)
next
  case (Cons c cs)
  obtain p m mon where c: "c = (p, m, mon)" by (cases c)
  from Cons.prems have ok: "storeOK w" and row: "drag_projectId (dragState w) = P" "drag_memberId (dragState w) = M"
    by (simp_all add: gestureInv_def)
  have step: "filter (\<lambda>a. \<not> sameRow P M a) (allocations (handleCellMouseEnter p m mon w))
         = filter (\<lambda>a. \<not> sameRow P M a) (allocations w)"
    using enter_frame[OF ok, of p m mon] row by simp
  have "gestureInv P M m0 PV base (paintStep P M m0 S (p, m, mon)) (handleCellMouseEnter p m mon w)"
    by (rule gesture_enter[OF Cons.prems])
  from Cons.IH[OF this] step show ?case
    by (simp add: enters_def c run_Cons)
qed

text \<open>
  From the pointer-down to before the release, no record outside the row of the start
  cell changes, whatever cells the pointer enters; and a release after movement in the
  row changes nothing.
\<close>

lemma enters_keep_other_rows:
  assumes ok: "storeOK w"
  shows "filter (\<lambda>a. \<not> sameRow P M a) (allocations (run w (MouseDown P M m0 # enters cs)))
         = filter (\<lambda>a. \<not> sameRow P M a) (allocations w)"
proof -
  have "allocations (fire w (MouseDown P M m0)) = allocations w"
    by (simp add: handleCellMouseDown_def)
  with gesture_frame[OF gesture_start[OF ok, of P M m0], of cs] show ?thesis
    by (simp add: run_Cons del: fire.simps)
qed

text \<open>
  C5. Pointer-enter events never change a record outside the row of the gesture
  (\<open>enters_keep_other_rows\<close>), and neither does a release once movement in the row
  was detected (\<open>release_after_move\<close>).
  A release without such movement runs the click-cycle on the cell under the pointer,
  whichever row it is in: a press on a cell of row \<open>(p1, m1)\<close>, a move to the cell of row
  \<open>(p2, m1)\<close> and a release there deletes the record of \<open>(p2, m1)\<close>, which showed 80.
\<close>

theorem release_on_other_row_mutates:
  "allocations exampleWorld =
     [\<lparr>alloc_id = ''u'', projectId = ''p1'', memberId = ''m1'', month = ''2024-04'', percentage = 100\<rparr>,
      \<lparr>alloc_id = ''uu'', projectId = ''p2'', memberId = ''m1'', month = ''2024-04'', percentage = 80\<rparr>]
   \<and> allocations (run exampleWorld
        [MouseDown ''p1'' ''m1'' ''2024-04'', MouseEnter ''p2'' ''m1'' ''2024-04'', MouseUp ''p2'' ''m1'' ''2024-04''])
     = [\<lparr>alloc_id = ''u'', projectId = ''p1'', memberId = ''m1'', month = ''2024-04'', percentage = 100\<rparr>]"
  by (simp add: run_def exampleWorld_def idleDrag_def handleCellMouseDown_def handleCellMouseEnter_def
      handleCellMouseUp_def handleGlobalMouseUp_def endGesture_def updateAllocationValue_def
      cellPercentage_def sameCell_def deleteAllocation_def Let_def)

section \<open>Business hours of a month\<close>

text \<open>\<open>Number\<close> and \<open>getBusinessHoursInMonth\<close> on some strings.\<close>

lemma Number_examples:
  "Number ''2024'' = Fin 2024"
  "Number ''04'' = Fin 4"
  "Number '' 2024'' = Fin 2024"
  "Number [] = Fin 0"
  "Number ''0x10'' = Fin 16"
  "Number ''1e3'' = Fin 1000"
  "Number ''.5'' = Fin (1 / 2)"
  "Number ''12px'' = NaN"
  "Number ''-Infinity'' = NegInfinity"
  "Number ''2023.99999999999999999999'' = Fin 2024"
  by code_simp+

lemma getBusinessHoursInMonth_examples:
  "getBusinessHoursInMonth utcZone '' 2024-04'' = 176"
  "getBusinessHoursInMonth utcZone ''2024-04-15'' = 176"
  "getBusinessHoursInMonth utcZone ''2024-13'' = 0"
  "getBusinessHoursInMonth utcZone ''2024'' = 0"
  "getBusinessHoursInMonth utcZone ''275760-09'' = 80"
  "getBusinessHoursInMonth utcZone ''2011-12'' = 176"
  by code_simp+



















text \<open>In December 2011 it does not keep the days: local midnight of the 30th is read as the 31st.\<close>

lemma apia_skips_a_day: "\<not> keepsDays apiaZone 2011 11"
proof -
  define x where "x = MakeDate (dayNumber 2011 11 30) 0"
  have a: "Day x = 15338" unfolding x_def by code_simp
  have b: "yearFromDay 15338 = 2011" by code_simp
  have c: "monthFromDay 15338 = 11" by code_simp
  have d: "Day (LocalTime apiaZone (UTC apiaZone x)) = 15339" unfolding x_def by code_simp
  show ?thesis
    unfolding keepsDays_def using a b c d by (intro notI) (force dest: spec[of _ x])
qed





















section \<open>Costs\<close>

lemma foldl_add_sum_list:
  fixes f :: "'a \<Rightarrow> 'b::comm_monoid_add"
  shows "foldl (\<lambda>s x. s + f x) z xs = z + sum_list (map f xs)"
  by (induction xs arbitrary: z) (simp_all add: add.assoc)

lemma set_uniqueValues_aux:
  "set (foldl (\<lambda>acc x. if x \<in> set acc then acc else acc @ [x]) ys xs) = set ys \<union> set xs"
  by (induction xs arbitrary: ys) auto

lemma set_uniqueValues [simp]: "set (uniqueValues xs) = set xs"
  by (simp add: uniqueValues_def set_uniqueValues_aux)

lemma set_uniqueMonths [simp]: "set (uniqueMonths allocs) = month ` set allocs"
  by (simp add: uniqueMonths_def)

lemma calculateProjectTotal_sum:
  "calculateProjectTotal tz allocs members roles projId =
     sum_list (map (contribution tz members roles) (filter (\<lambda>a. projectId a = projId) allocs))"
proof -
  have step: "(\<lambda>sum alloc.
        (let member = find (\<lambda>m. member_id m = memberId alloc) members;
             role = (case member of
                       None \<Rightarrow> None
                     | Some mb \<Rightarrow> find (\<lambda>r. role_id r = roleId mb) roles)
         in if member = None \<or> role = None then sum
            else (let hours = real (getBusinessHoursInMonth tz (month alloc)) *
                              (real_of_int (percentage alloc) / 100)
                  in sum + hours * defaultHourlyRate (the role))))
     = (\<lambda>sum alloc. sum + contribution tz members roles alloc)"
    by (intro ext) (simp add: contribution_def Let_def split: option.splits)
  show ?thesis
    unfolding calculateProjectTotal_def step by (simp add: foldl_add_sum_list)
qed

lemma monthly_cost_fold:
  assumes "\<forall>a\<in>set xs. month a = mon"
  shows "foldl (\<lambda>total alloc.
                  (let member = find (\<lambda>m. member_id m = memberId alloc) members;
                       role = (case member of
                                 Some mb \<Rightarrow> find (\<lambda>r. role_id r = roleId mb) roles
                               | None \<Rightarrow> None)
                   in if member \<noteq> None \<and> role \<noteq> None then
                        (let hours = real (getBusinessHoursInMonth tz mon) * (real_of_int (percentage alloc) / 100)
                         in total + hours * defaultHourlyRate (the role))
                      else total)) z xs
         = z + sum_list (map (contribution tz members roles) xs)"
  using assms
proof (induction xs arbitrary: z)
  case Nil
  then show ?case by simp
next
  case (Cons a xs)
  have "month a = mon" using Cons.prems by simp
  then show ?case
    using Cons by (simp add: contribution_def Let_def split: option.splits)
qed

lemma financialData_cost:
  "map cost (financialData tz getMonthName allocs members roles) =
     map (\<lambda>mon. sum_list (map (contribution tz members roles) (filter (\<lambda>a. month a = mon) allocs)))
       (uniqueMonths allocs)"
proof -
  have "\<forall>a\<in>set (filter (\<lambda>a. month a = mon) allocs). month a = mon" for mon
    by simp
  note fold = monthly_cost_fold[OF this, unfolded Let_def, where members = members and roles = roles and z = 0]
  show ?thesis
    unfolding financialData_def Let_def map_map comp_def
    by (rule map_cong[OF refl]) (simp only: FinancialRow.simps fold add_0)
qed

text \<open>
  C9. The per-project total and the cost of each month of the monthly series are the
  sums, over the allocations of the project or of the month, of the contribution of each
  allocation: 0 when its member is not found or the member's role is not found, and
  otherwise the business hours of its month times its percentage over 100 times the
  hourly rate of the role, on whatever time zone \<open>tz\<close> the host has. Both computations
  are total: a failed lookup is a value (\<open>undefined\<close>), tested before the role is used.
\<close>

theorem dangling_contributes_zero:
  "calculateProjectTotal tz allocs members roles projId =
     sum_list (map (contribution tz members roles) (filter (\<lambda>a. projectId a = projId) allocs))
   \<and> map cost (financialData tz getMonthName allocs members roles) =
     map (\<lambda>mon. sum_list (map (contribution tz members roles) (filter (\<lambda>a. month a = mon) allocs)))
       (uniqueMonths allocs)
   \<and> (find (\<lambda>m. member_id m = memberId alloc) members = None \<longrightarrow>
        contribution tz members roles alloc = 0)
   \<and> (find (\<lambda>m. member_id m = memberId alloc) members = Some mb \<and>
      find (\<lambda>r. role_id r = roleId mb) roles = None \<longrightarrow>
        contribution tz members roles alloc = 0)
   \<and> (find (\<lambda>m. member_id m = memberId alloc) members = Some mb \<and>
      find (\<lambda>r. role_id r = roleId mb) roles = Some r \<longrightarrow>
        contribution tz members roles alloc =
          real (getBusinessHoursInMonth tz (month alloc)) * (real_of_int (percentage alloc) / 100)
          * defaultHourlyRate r)"
  by (simp add: calculateProjectTotal_sum financialData_cost contribution_def)

lemma hours_april_2024: "getBusinessHoursInMonth utcZone ''2024-04'' = 176"
  by code_simp

theorem dangling_contributes_zero_witness:
  "find (\<lambda>m. member_id m = memberId (exampleAllocations ! 2)) exampleMembers = None
   \<and> contribution utcZone exampleMembers exampleRoles (exampleAllocations ! 2) = 0
   \<and> find (\<lambda>m. member_id m = memberId (exampleAllocations ! 1)) exampleMembers = Some (exampleMembers ! 1)
   \<and> find (\<lambda>r. role_id r = roleId (exampleMembers ! 1)) exampleRoles = None
   \<and> contribution utcZone exampleMembers exampleRoles (exampleAllocations ! 1) = 0
   \<and> find (\<lambda>m. member_id m = memberId (exampleAllocations ! 0)) exampleMembers = Some (exampleMembers ! 0)
   \<and> find (\<lambda>r. role_id r = roleId (exampleMembers ! 0)) exampleRoles = Some (exampleRoles ! 0)
   \<and> contribution utcZone exampleMembers exampleRoles (exampleAllocations ! 0) = 13200
   \<and> calculateProjectTotal utcZone exampleAllocations exampleMembers exampleRoles ''p1'' = 13200"
proof -
  note T = dangling_contributes_zero[where tz = utcZone and members = exampleMembers
      and roles = exampleRoles and allocs = exampleAllocations and projId = "''p1''"]
  have f2: "find (\<lambda>m. member_id m = memberId (exampleAllocations ! 2)) exampleMembers = None"
    by (simp add: exampleAllocations_def exampleMembers_def)
  have f1: "find (\<lambda>m. member_id m = memberId (exampleAllocations ! 1)) exampleMembers = Some (exampleMembers ! 1)"
    "find (\<lambda>r. role_id r = roleId (exampleMembers ! 1)) exampleRoles = None"
    by (simp_all add: exampleAllocations_def exampleMembers_def exampleRoles_def)
  have f0: "find (\<lambda>m. member_id m = memberId (exampleAllocations ! 0)) exampleMembers = Some (exampleMembers ! 0)"
    "find (\<lambda>r. role_id r = roleId (exampleMembers ! 0)) exampleRoles = Some (exampleRoles ! 0)"
    by (simp_all add: exampleAllocations_def exampleMembers_def exampleRoles_def)
  have c2: "contribution utcZone exampleMembers exampleRoles (exampleAllocations ! 2) = 0"
    using T[where alloc = "exampleAllocations ! 2"] f2 by blast
  have c1: "contribution utcZone exampleMembers exampleRoles (exampleAllocations ! 1) = 0"
    using T[where alloc = "exampleAllocations ! 1" and mb = "exampleMembers ! 1"] f1 by blast
  have "contribution utcZone exampleMembers exampleRoles (exampleAllocations ! 0) =
          real (getBusinessHoursInMonth utcZone (month (exampleAllocations ! 0)))
          * (real_of_int (percentage (exampleAllocations ! 0)) / 100)
          * defaultHourlyRate (exampleRoles ! 0)"
    using T[where alloc = "exampleAllocations ! 0" and mb = "exampleMembers ! 0" and r = "exampleRoles ! 0"] f0
    by blast
  then have c0: "contribution utcZone exampleMembers exampleRoles (exampleAllocations ! 0) = 13200"
    by (simp add: exampleAllocations_def exampleRoles_def hours_april_2024)
  have "filter (\<lambda>a. projectId a = ''p1'') exampleAllocations
        = [exampleAllocations ! 0, exampleAllocations ! 1, exampleAllocations ! 2]"
    by (simp add: exampleAllocations_def)
  then have tot: "calculateProjectTotal utcZone exampleAllocations exampleMembers exampleRoles ''p1'' = 13200"
    using T c0 c1 c2 by simp
  show ?thesis
    using f0 f1 f2 c0 c1 c2 tot by blast
qed

section \<open>Over-allocation\<close>

lemma memberMonthlyTotal_sum:
  "memberMonthlyTotal allocs memId mon =
     sum_list (map percentage (filter (\<lambda>a. memberId a = memId \<and> month a = mon) allocs))"
  by (simp add: memberMonthlyTotal_def foldl_add_sum_list)

lemma total_needs_allocation:
  assumes "0 < memberMonthlyTotal allocs memId mon"
  shows "\<exists>a\<in>set allocs. memberId a = memId \<and> month a = mon"
proof (rule ccontr)
  assume "\<not> ?thesis"
  then have "filter (\<lambda>a. memberId a = memId \<and> month a = mon) allocs = []"
    by (auto simp: filter_empty_conv)
  with assms show False by (simp add: memberMonthlyTotal_sum)
qed

lemma overAllocations_set:
  "set (overAllocations members allocs) =
     (\<lambda>(mb, mon). name mb @ '' is at '' @ toString (memberMonthlyTotal allocs (member_id mb) mon)
                    @ ''% in '' @ mon) `
     {(mb, mon). mb \<in> set members \<and> (\<exists>a\<in>set allocs. memberId a = member_id mb \<and> month a = mon)
                 \<and> 100 < memberMonthlyTotal allocs (member_id mb) mon}"
  (is "?L = ?f ` ?S")
proof -
  have L: "?L = ?f ` {(mb, mon). mb \<in> set members \<and> mon \<in> month ` set allocs
                 \<and> 100 < memberMonthlyTotal allocs (member_id mb) mon}"
    unfolding overAllocations_def memberMonthlyTotal_def[symmetric]
    by (auto simp: Let_def image_iff split: if_splits)
  have "{(mb, mon). mb \<in> set members \<and> mon \<in> month ` set allocs
                 \<and> 100 < memberMonthlyTotal allocs (member_id mb) mon} = ?S"
    using total_needs_allocation by fastforce
  with L show ?thesis by simp
qed

lemma member_le_sum_list_int:
  fixes f :: "'a \<Rightarrow> int"
  assumes "\<forall>x\<in>set xs. 0 \<le> f x" "r \<in> set xs"
  shows "f r \<le> sum_list (map f xs)"
  using assms
proof (induction xs)
  case Nil
  then show ?case by simp
next
  case (Cons x xs)
  have "0 \<le> sum_list (map f xs)" using Cons.prems(1) by (intro sum_list_nonneg) auto
  with Cons show ?case by auto
qed

lemma entered_value_counts:
  assumes ok: "storeOK w" and cell: "editingCell w = Some (p, memId, mon)"
    and parse: "parseInt (editValue w) = Some v" and pos: "0 < v"
  shows "cellPercentage (allocations (fire w Commit)) p memId mon = v"
    and "v \<le> memberMonthlyTotal (allocations (fire w Commit)) memId mon"
proof -
  let ?w' = "updateAllocationValue (allocations w) p memId mon v w"
  have al: "allocations (fire w Commit) = allocations ?w'"
    using cell parse by (simp add: saveEditing_def)
  note ws = write_step[OF ok refl, where p = p and m = memId and mon = mon and v = v]
  show v: "cellPercentage (allocations (fire w Commit)) p memId mon = v"
    unfolding al using ws(2) pos by simp
  then obtain r where r: "find (sameCell p memId mon) (allocations ?w') = Some r" "percentage r = v"
    using pos unfolding al by (auto simp: cellPercentage_find split: option.splits)
  then have rin: "r \<in> set (allocations ?w')" "memberId r = memId" "month r = mon"
    using find_Some_mem[OF r(1)] by (simp_all add: sameCell_def)
  have nonneg: "\<forall>a\<in>set (allocations ?w'). 0 \<le> percentage a"
    using ws(1) by (auto simp: storeOK_def list_all_iff intro: less_imp_le)
  have "percentage r \<le> sum_list (map percentage (filter (\<lambda>a. memberId a = memId \<and> month a = mon) (allocations ?w')))"
    using nonneg rin by (intro member_le_sum_list_int) auto
  then show "v \<le> memberMonthlyTotal (allocations (fire w Commit)) memId mon"
    unfolding al by (simp add: memberMonthlyTotal_sum r(2))
qed

lemma distinct_uniqueValues_aux:
  "distinct ys \<Longrightarrow> distinct (foldl (\<lambda>acc x. if x \<in> set acc then acc else acc @ [x]) ys xs)"
  by (induction xs arbitrary: ys) simp_all

lemma distinct_uniqueValues: "distinct (uniqueValues xs)"
  by (simp add: uniqueValues_def distinct_uniqueValues_aux)

lemma uniqueMonths_sorted_distinct: "sorted (uniqueMonths allocs) \<and> distinct (uniqueMonths allocs)"
  by (simp add: uniqueMonths_def distinct_uniqueValues)

lemma concat_singletons:
  "concat (map (\<lambda>x. if P x then [f x] else []) xs) = map f (filter P xs)"
  by (induction xs) simp_all

lemma overAllocations_list:
  "overAllocations members allocs =
     map (finding allocs) (filter (overAllocated allocs) (List.product members (uniqueMonths allocs)))"
proof -
  have row: "concat (map (\<lambda>mon.
         (let totalAlloc =
                foldl (\<lambda>sum a. sum + percentage a) 0
                  (filter (\<lambda>a. memberId a = member_id mb \<and> month a = mon) allocs)
          in if totalAlloc > 100
             then [name mb @ '' is at '' @ toString totalAlloc @ ''% in '' @ mon]
             else [])) months)
       = map (finding allocs) (filter (overAllocated allocs) (map (Pair mb) months))" for mb months
    by (induction months) (simp_all add: finding_def overAllocated_def memberMonthlyTotal_def Let_def)
  show ?thesis
    unfolding overAllocations_def row
    by (induction members) simp_all
qed

text \<open>
  C4, as the code has it. The total of a member in a month is the plain sum of the
  percentages of the records with that member id and month. A committed entry \<open>v > 0\<close>
  is stored as it is, 150 included, and counts in full in the total of its member and
  month. The over-allocation check scans the months that occur in the allocation set,
  each once and in ascending order, for every entry of the members list in the order of
  the list, and its findings are, in that order, one for each such entry and month with
  a total above 100 and nothing else; these are the pairs of a listed member and a month
  in which the member has an allocation and a total above 100. So an entry above 100
  yields a finding for every entry of the members list with its member id.
\<close>

theorem over_allocation:
  "memberMonthlyTotal allocs memId mon =
     sum_list (map percentage (filter (\<lambda>a. memberId a = memId \<and> month a = mon) allocs))
   \<and> sorted (uniqueMonths allocs) \<and> distinct (uniqueMonths allocs)
   \<and> set (uniqueMonths allocs) = month ` set allocs
   \<and> overAllocations members allocs =
       map (finding allocs) (filter (overAllocated allocs) (List.product members (uniqueMonths allocs)))
   \<and> set (overAllocations members allocs) =
       (\<lambda>(mb, mon). name mb @ '' is at '' @ toString (memberMonthlyTotal allocs (member_id mb) mon)
                      @ ''% in '' @ mon) `
       {(mb, mon). mb \<in> set members \<and> (\<exists>a\<in>set allocs. memberId a = member_id mb \<and> month a = mon)
                   \<and> 100 < memberMonthlyTotal allocs (member_id mb) mon}
   \<and> (storeOK w \<and> editingCell w = Some (p, memId, mon) \<and> parseInt (editValue w) = Some v \<and> 0 < v \<longrightarrow>
        cellPercentage (allocations (fire w Commit)) p memId mon = v \<and>
        v \<le> memberMonthlyTotal (allocations (fire w Commit)) memId mon \<and>
        (100 < v \<longrightarrow>
           (\<forall>mb\<in>set members. member_id mb = memId \<longrightarrow>
              name mb @ '' is at '' @ toString (memberMonthlyTotal (allocations (fire w Commit)) memId mon)
                @ ''% in '' @ mon
              \<in> set (overAllocations members (allocations (fire w Commit))))))"
proof -
  have d: "cellPercentage (allocations (fire w Commit)) p memId mon = v \<and>
        v \<le> memberMonthlyTotal (allocations (fire w Commit)) memId mon \<and>
        (100 < v \<longrightarrow>
           (\<forall>mb\<in>set members. member_id mb = memId \<longrightarrow>
              name mb @ '' is at '' @ toString (memberMonthlyTotal (allocations (fire w Commit)) memId mon)
                @ ''% in '' @ mon
              \<in> set (overAllocations members (allocations (fire w Commit)))))"
    if h: "storeOK w" "editingCell w = Some (p, memId, mon)" "parseInt (editValue w) = Some v" "0 < v"
  proof -
    let ?A = "allocations (fire w Commit)"
    note e = entered_value_counts[OF h]
    have "name mb @ '' is at '' @ toString (memberMonthlyTotal ?A memId mon) @ ''% in '' @ mon
          \<in> set (overAllocations members ?A)"
      if "100 < v" "mb \<in> set members" "member_id mb = memId" for mb
    proof -
      have big: "100 < memberMonthlyTotal ?A (member_id mb) mon" using e(2) that by simp
      then have "\<exists>a\<in>set ?A. memberId a = member_id mb \<and> month a = mon"
        by (intro total_needs_allocation) simp
      with big that have "(mb, mon) \<in> {(mb, mon). mb \<in> set members
            \<and> (\<exists>a\<in>set ?A. memberId a = member_id mb \<and> month a = mon)
            \<and> 100 < memberMonthlyTotal ?A (member_id mb) mon}"
        by simp
      from imageI[OF this, of "\<lambda>(mb, mon). name mb @ '' is at '' @
            toString (memberMonthlyTotal ?A (member_id mb) mon) @ ''% in '' @ mon"]
      show ?thesis
        unfolding overAllocations_set using that(3) by simp
    qed
    with e show ?thesis by blast
  qed
  show ?thesis
    using memberMonthlyTotal_sum[of allocs memId mon] set_uniqueMonths[of allocs]
      uniqueMonths_sorted_distinct[of allocs] overAllocations_list[of members allocs]
      overAllocations_set[of members allocs] d
    by blast
qed

theorem over_allocation_witness:
  "storeOK enteringWorld
   \<and> editingCell enteringWorld = Some (''p1'', ''m1'', ''2024-04'')
   \<and> parseInt (editValue enteringWorld) = Some 150
   \<and> cellPercentage (allocations (fire enteringWorld Commit)) ''p1'' ''m1'' ''2024-04'' = 150
   \<and> 150 \<le> memberMonthlyTotal (allocations (fire enteringWorld Commit)) ''m1'' ''2024-04''
   \<and> exampleMembers ! 0 \<in> set exampleMembers
   \<and> member_id (exampleMembers ! 0) = ''m1''
   \<and> name (exampleMembers ! 0) @ '' is at '' @
       toString (memberMonthlyTotal (allocations (fire enteringWorld Commit)) ''m1'' ''2024-04'') @
       ''% in '' @ ''2024-04''
     \<in> set (overAllocations exampleMembers (allocations (fire enteringWorld Commit)))
   \<and> uniqueMonths exampleAllocations = [''2024-02'', ''2024-04'']
   \<and> overAllocations exampleMembers exampleAllocations = [''Sarah Jenkins is at 200% in 2024-04'']"
proof -
  have h1: "storeOK enteringWorld" using exampleWorld_ok by (simp add: enteringWorld_def)
  have h2: "editingCell enteringWorld = Some (''p1'', ''m1'', ''2024-04'')"
    by (simp add: enteringWorld_def)
  have h3: "parseInt (editValue enteringWorld) = Some 150"
    by (simp add: enteringWorld_def parseInt_def isWhiteSpace_def isRadixDigit_def digitValue_def radixValue_def)
  have h4: "exampleMembers ! 0 \<in> set exampleMembers" "member_id (exampleMembers ! 0) = ''m1''"
    by (simp_all add: exampleMembers_def)
  have h5: "(0::int) < 150" "(100::int) < 150" by simp_all
  note T = over_allocation[where w = enteringWorld and p = "''p1''" and memId = "''m1''"
      and mon = "''2024-04''" and v = 150 and members = exampleMembers and allocs = exampleAllocations]
  from T h1 h2 h3 h5(1) have
    "cellPercentage (allocations (fire enteringWorld Commit)) ''p1'' ''m1'' ''2024-04'' = 150 \<and>
     150 \<le> memberMonthlyTotal (allocations (fire enteringWorld Commit)) ''m1'' ''2024-04'' \<and>
     ((100::int) < 150 \<longrightarrow>
       (\<forall>mb\<in>set exampleMembers. member_id mb = ''m1'' \<longrightarrow>
              name mb @ '' is at '' @ toString (memberMonthlyTotal (allocations (fire enteringWorld Commit)) ''m1'' ''2024-04'')
                @ ''% in '' @ ''2024-04''
              \<in> set (overAllocations exampleMembers (allocations (fire enteringWorld Commit)))))"
    by blast
  with h5(2) have
    c: "cellPercentage (allocations (fire enteringWorld Commit)) ''p1'' ''m1'' ''2024-04'' = 150"
       "150 \<le> memberMonthlyTotal (allocations (fire enteringWorld Commit)) ''m1'' ''2024-04''"
       "\<forall>mb\<in>set exampleMembers. member_id mb = ''m1'' \<longrightarrow>
              name mb @ '' is at '' @ toString (memberMonthlyTotal (allocations (fire enteringWorld Commit)) ''m1'' ''2024-04'')
                @ ''% in '' @ ''2024-04''
              \<in> set (overAllocations exampleMembers (allocations (fire enteringWorld Commit)))"
    by blast+
  from c(3) h4 have f: "name (exampleMembers ! 0) @ '' is at '' @
       toString (memberMonthlyTotal (allocations (fire enteringWorld Commit)) ''m1'' ''2024-04'') @
       ''% in '' @ ''2024-04''
     \<in> set (overAllocations exampleMembers (allocations (fire enteringWorld Commit)))"
    by blast
  have um: "uniqueMonths exampleAllocations = [''2024-02'', ''2024-04'']"
    by code_simp
  have "overAllocations exampleMembers exampleAllocations =
      map (finding exampleAllocations) (filter (overAllocated exampleAllocations)
        (List.product exampleMembers (uniqueMonths exampleAllocations)))"
    using T by blast
  also have "\<dots> = [''Sarah Jenkins is at 200% in 2024-04'']"
    by code_simp
  finally have ov: "overAllocations exampleMembers exampleAllocations
      = [''Sarah Jenkins is at 200% in 2024-04'']" .
  show ?thesis
    using h1 h2 h3 h4 c(1,2) f um ov by blast
qed

text \<open>
  The claim for every person with an allocation fails for a person who is no longer in
  the members list: \<open>m9\<close> is booked at 500 percent in February 2024 and has a finding
  while listed; after \<open>deleteMember\<close>, which leaves the store as it is, the total is
  still 500 and the check has no finding for \<open>m9\<close>.
\<close>

theorem over_allocation_dangling:
  "memberMonthlyTotal overbookedAllocations ''m9'' ''2024-02'' = 500
   \<and> overAllocations exampleTeam overbookedAllocations =
       [''Sarah Jenkins is at 200% in 2024-04'', ''David Kim is at 500% in 2024-02'']
   \<and> deleteMember ''m9'' exampleTeam = exampleMembers
   \<and> overAllocations (deleteMember ''m9'' exampleTeam) overbookedAllocations =
       [''Sarah Jenkins is at 200% in 2024-04'']"
proof -
  have a: "memberMonthlyTotal overbookedAllocations ''m9'' ''2024-02'' = 500" by code_simp
  have b: "overAllocations exampleTeam overbookedAllocations =
       [''Sarah Jenkins is at 200% in 2024-04'', ''David Kim is at 500% in 2024-02'']"
    by code_simp
  have c: "deleteMember ''m9'' exampleTeam = exampleMembers" by code_simp
  have d: "overAllocations (deleteMember ''m9'' exampleTeam) overbookedAllocations =
       [''Sarah Jenkins is at 200% in 2024-04'']"
    by code_simp
  show ?thesis using a b c d by blast
qed

end
